theory Spec2Isabelle
  imports Main "HOL-Library.List_Lexorder"
begin

section \<open>Python text\<close>

text \<open>
  A Python \<open>str\<close> is a sequence of Unicode code points, so a text is a list of
  code points; \<open>len\<close> is \<open>length\<close>. ASCII literals of the source are written
  with \<open>lit\<close>; the pictographs of the reply keyboard are given by their code points.
\<close>

type_synonym pystr = "nat list"

definition lit :: "string \<Rightarrow> pystr" where
  "lit s = map of_char s"

text \<open>
  \<open>str.isdigit\<close>, \<open>str.strip\<close>, \<open>str.split\<close> and the regular expression class
  \<open>\w\<close> classify code points with the Unicode tables of the Python runtime. On ASCII the
  classification is fixed and written out here; the tables for the code points from 128
  on are not part of the repository and are a parameter of the model.
\<close>

record unicode =
  digit_hi :: "nat \<Rightarrow> bool"
  word_hi :: "nat \<Rightarrow> bool"
  space_hi :: "nat \<Rightarrow> bool"

text \<open>
  The pictographs that start a button of the reply keyboard (\<open>U+2139\<close>, \<open>U+2B05\<close>,
  \<open>U+1F3AC\<close>, \<open>U+1F3E0\<close>, \<open>U+1F4C1\<close>, \<open>U+1F4DA\<close>, \<open>U+1F50D\<close>) are symbols,
  not digits, in every version of the tables; the model fixes that as well.
\<close>

definition keyboard_pictograph :: "nat \<Rightarrow> bool" where
  "keyboard_pictograph c = (c \<in> set [8505, 11013, 127916, 127968, 128193, 128218, 128269])"

definition isdigit_cp :: "unicode \<Rightarrow> nat \<Rightarrow> bool" where
  "isdigit_cp U c =
     (if c < 128 then 48 \<le> c \<and> c \<le> 57 else \<not> keyboard_pictograph c \<and> digit_hi U c)"

definition isword_cp :: "unicode \<Rightarrow> nat \<Rightarrow> bool" where
  "isword_cp U c =
     (if c < 128
      then (48 \<le> c \<and> c \<le> 57) \<or> (65 \<le> c \<and> c \<le> 90) \<or> c = 95 \<or> (97 \<le> c \<and> c \<le> 122)
      else word_hi U c)"

definition isspace_cp :: "unicode \<Rightarrow> nat \<Rightarrow> bool" where
  "isspace_cp U c =
     (if c < 128 then (9 \<le> c \<and> c \<le> 13) \<or> (28 \<le> c \<and> c \<le> 32) else space_hi U c)"

text \<open>The tables that classify no code point above ASCII; exact on ASCII text.\<close>

definition ascii_only :: unicode where
  "ascii_only = \<lparr>digit_hi = (\<lambda>c. False), word_hi = (\<lambda>c. False), space_hi = (\<lambda>c. False)\<rparr>"

text \<open>\<open>s.isdigit()\<close>: at least one character, and all of them digits.\<close>

definition isdigit :: "unicode \<Rightarrow> pystr \<Rightarrow> bool" where
  "isdigit U s = (s \<noteq> [] \<and> list_all (isdigit_cp U) s)"

text \<open>\<open>s.startswith(p)\<close>, and \<open>s.startswith((p1, p2, ...))\<close> for a tuple.\<close>

fun startswith :: "pystr \<Rightarrow> pystr \<Rightarrow> bool" where
  "startswith s [] = True"
| "startswith [] (p # ps) = False"
| "startswith (c # cs) (p # ps) = (c = p \<and> startswith cs ps)"

definition startswith_any :: "pystr \<Rightarrow> pystr list \<Rightarrow> bool" where
  "startswith_any s ps = list_ex (startswith s) ps"

text \<open>\<open>p in s\<close> on strings: \<open>p\<close> occurs in \<open>s\<close> as a contiguous substring.\<close>

fun contains :: "pystr \<Rightarrow> pystr \<Rightarrow> bool" where
  "contains [] p = (p = [])"
| "contains (c # cs) p = (startswith (c # cs) p \<or> contains cs p)"

text \<open>\<open>s.strip()\<close>: leading and trailing whitespace removed.\<close>

definition strip :: "unicode \<Rightarrow> pystr \<Rightarrow> pystr" where
  "strip U s = rev (dropWhile (isspace_cp U) (rev (dropWhile (isspace_cp U) s)))"

text \<open>\<open>sep.join(xs)\<close>.\<close>

fun join :: "pystr \<Rightarrow> pystr list \<Rightarrow> pystr" where
  "join sep [] = []"
| "join sep [x] = x"
| "join sep (x # y # ys) = x @ sep @ join sep (y # ys)"

text \<open>\<open>s.split()\<close>: the maximal runs of non-whitespace characters.\<close>

function split_ws :: "unicode \<Rightarrow> pystr \<Rightarrow> pystr list" where
  "split_ws U [] = []"
| "split_ws U (c # cs) =
     (if isspace_cp U c then split_ws U cs
      else (c # takeWhile (\<lambda>x. \<not> isspace_cp U x) cs)
             # split_ws U (dropWhile (\<lambda>x. \<not> isspace_cp U x) cs))"
  by pat_completeness auto
termination
  by (relation "measure (\<lambda>(U, s). length s)")
     (auto simp: length_dropWhile_le less_Suc_eq_le)

text \<open>
  \<open>s.replace(old, new)\<close> for a non-empty \<open>old\<close>: every occurrence, scanning from the
  left and not overlapping. The source only calls it with a non-empty literal.
\<close>

function replace :: "pystr \<Rightarrow> pystr \<Rightarrow> pystr \<Rightarrow> pystr" where
  "replace [] old new = []"
| "replace (c # cs) old new =
     (if old \<noteq> [] \<and> startswith (c # cs) old
      then new @ replace (drop (length old) (c # cs)) old new
      else c # replace cs old new)"
  by pat_completeness auto
termination
  by (relation "measure (\<lambda>(s, old, new). length s)") (auto simp: neq_Nil_conv)

section \<open>database.py: extracting the codes of a caption\<close>

text \<open>
  \<open>re.findall(r'#\w+', text, re.IGNORECASE)\<close>: the scan goes left to right; at a
  \<open>#\<close> followed by at least one word character the match takes all the word characters
  that follow (the quantifier is greedy) and the scan resumes after the match; anywhere
  else it moves on by one character.
\<close>

function findall_hashtags :: "unicode \<Rightarrow> pystr \<Rightarrow> pystr list" where
  "findall_hashtags U [] = []"
| "findall_hashtags U (c # cs) =
     (if c = 35 \<and> takeWhile (isword_cp U) cs \<noteq> []
      then (35 # takeWhile (isword_cp U) cs) # findall_hashtags U (dropWhile (isword_cp U) cs)
      else findall_hashtags U cs)"
  by pat_completeness auto
termination
  by (relation "measure (\<lambda>(U, s). length s)")
     (auto simp: length_dropWhile_le less_Suc_eq_le)

definition extract_hashtags_as_codes :: "unicode \<Rightarrow> pystr \<Rightarrow> pystr" where
  "extract_hashtags_as_codes U text =
     (if text = [] then [] else join [32] (findall_hashtags U text))"

text \<open>
  The specification's words: the maximal \<open>#token\<close> substrings of a caption, in order of
  occurrence. A token starts at every position that holds \<open>#\<close> with a word character
  next, and extends over all the word characters that follow.
\<close>

definition token_starts :: "unicode \<Rightarrow> pystr \<Rightarrow> nat \<Rightarrow> bool" where
  "token_starts U s i = (Suc i < length s \<and> s ! i = 35 \<and> isword_cp U (s ! Suc i))"

definition token_at :: "unicode \<Rightarrow> pystr \<Rightarrow> nat \<Rightarrow> pystr" where
  "token_at U s i = 35 # takeWhile (isword_cp U) (drop (Suc i) s)"

definition maximal_tokens :: "unicode \<Rightarrow> pystr \<Rightarrow> pystr list" where
  "maximal_tokens U s = map (token_at U s) (filter (token_starts U s) [0..<length s])"

section \<open>database.py: the tables\<close>

text \<open>
  The three tables of \<open>init_db\<close>, each a list of rows in rowid order. Every table has
  an \<open>INTEGER PRIMARY KEY AUTOINCREMENT\<close> column; the only other uniqueness constraint
  of the schema is \<open>code TEXT UNIQUE\<close> of \<open>movies\<close>. Timestamps are numbers that grow
  with time.
\<close>

record video_row =
  v_id :: nat
  v_chat_id :: int
  v_message_id :: int
  v_file_id :: pystr
  v_caption :: pystr
  v_codes :: pystr
  v_date :: nat

record movie_row =
  m_id :: nat
  m_code :: pystr
  m_title :: pystr
  m_category :: pystr
  m_channel_message_id :: int
  m_channel_id :: int
  m_file_id :: pystr

record pending_row =
  p_id :: nat
  p_code :: pystr
  p_channel_message_id :: int
  p_channel_id :: int
  p_file_id :: pystr
  p_caption :: pystr
  p_date :: nat

text \<open>The calls a \<open>VideoDatabase\<close> receives, with the argument that selects rows.\<close>

datatype db_call =
    SaveVideo int int
  | GetCategories
  | GetMoviesByCategory pystr
  | GetMovieByCode pystr
  | AddMovie pystr
  | SearchChannelByHashtag pystr
  | AddPendingMovie pystr
  | GetPendingMovies
  | GetPendingMovieByCode pystr
  | RemovePendingMovie pystr

text \<open>
  A \<open>VideoDatabase\<close>: the tables, the last \<open>AUTOINCREMENT\<close> id of each, and two pieces
  of the environment. \<open>faults\<close> holds the outcome of the coming SQLite transactions, one
  entry for each method call, \<open>True\<close> when SQLite raises \<open>sqlite3.Error\<close> in it (no
  entry left: no failure). \<open>calls\<close> records the method calls made so far, oldest first.
\<close>

record database =
  videos :: "video_row list"
  movies :: "movie_row list"
  pending :: "pending_row list"
  videos_seq :: nat
  movies_seq :: nat
  pending_seq :: nat
  faults :: "bool list"
  calls :: "db_call list"

definition empty_db :: database where
  "empty_db = \<lparr>videos = [], movies = [], pending = [], videos_seq = 0, movies_seq = 0,
     pending_seq = 0, faults = [], calls = []\<rparr>"

text \<open>
  Every method opens a connection and runs its statements in one transaction inside
  \<open>try\<close>. \<open>begin_call\<close> records the call and takes the outcome of the transaction
  from the environment; a method that fails leaves the tables as they were.
\<close>

definition begin_call :: "db_call \<Rightarrow> database \<Rightarrow> bool \<times> database" where
  "begin_call c d =
     (case faults d of
        [] \<Rightarrow> (True, d\<lparr>calls := calls d @ [c]\<rparr>)
      | f # fs \<Rightarrow> (\<not> f, d\<lparr>calls := calls d @ [c], faults := fs\<rparr>))"

text \<open>
  \<open>INSERT OR REPLACE\<close>: the rows that conflict with the new row on a uniqueness
  constraint of the table are deleted, then the new row is inserted.
\<close>

definition insert_or_replace :: "('r \<Rightarrow> 'r \<Rightarrow> bool) \<Rightarrow> 'r \<Rightarrow> 'r list \<Rightarrow> 'r list" where
  "insert_or_replace conflict r rows = filter (\<lambda>x. \<not> conflict r x) rows @ [r]"

definition videos_conflict :: "video_row \<Rightarrow> video_row \<Rightarrow> bool" where
  "videos_conflict r x = (v_id r = v_id x)"

definition movies_conflict :: "movie_row \<Rightarrow> movie_row \<Rightarrow> bool" where
  "movies_conflict r x = (m_id r = m_id x \<or> m_code r = m_code x)"

definition pending_conflict :: "pending_row \<Rightarrow> pending_row \<Rightarrow> bool" where
  "pending_conflict r x = (p_id r = p_id x)"

text \<open>
  \<open>ORDER BY date DESC\<close>: rows by falling date. SQL leaves the order of rows with equal
  dates open; here they stay in rowid order.
\<close>

fun insert_desc :: "('r \<Rightarrow> nat) \<Rightarrow> 'r \<Rightarrow> 'r list \<Rightarrow> 'r list" where
  "insert_desc k r [] = [r]"
| "insert_desc k r (x # xs) = (if k x < k r then r # x # xs else x # insert_desc k r xs)"

definition order_by_desc :: "('r \<Rightarrow> nat) \<Rightarrow> 'r list \<Rightarrow> 'r list" where
  "order_by_desc k rows = foldl (\<lambda>acc r. insert_desc k r acc) [] rows"

text \<open>
  SQLite's \<open>LIKE\<close>: \<open>%\<close> in the pattern stands for any run of characters, \<open>_\<close> for any
  one character, and every other character matches itself, ASCII letters in either case.
\<close>

definition ascii_fold :: "nat \<Rightarrow> nat" where
  "ascii_fold c = (if 97 \<le> c \<and> c \<le> 122 then c - 32 else c)"

fun like :: "pystr \<Rightarrow> pystr \<Rightarrow> bool" where
  "like [] s = (s = [])"
| "like (p # ps) [] = (p = 37 \<and> like ps [])"
| "like (p # ps) (c # cs) =
     (if p = 37 then like ps (c # cs) \<or> like (p # ps) cs
      else (p = 95 \<or> ascii_fold p = ascii_fold c) \<and> like ps cs)"

section \<open>database.py: the methods\<close>

definition save_video ::
  "unicode \<Rightarrow> int \<Rightarrow> int \<Rightarrow> pystr \<Rightarrow> pystr \<Rightarrow> nat \<Rightarrow> database \<Rightarrow> bool \<times> database" where
  "save_video U chat_id message_id file_id caption date d =
     (let codes = extract_hashtags_as_codes U caption;
          (ok, d1) = begin_call (SaveVideo chat_id message_id) d
      in if ok
         then (True, d1\<lparr>videos := insert_or_replace videos_conflict
                   \<lparr>v_id = Suc (videos_seq d1), v_chat_id = chat_id, v_message_id = message_id,
                    v_file_id = file_id, v_caption = caption, v_codes = codes, v_date = date\<rparr>
                   (videos d1),
                 videos_seq := Suc (videos_seq d1)\<rparr>)
         else (False, d1))"

definition get_categories :: "database \<Rightarrow> pystr list \<times> database" where
  "get_categories d =
     (let (ok, d1) = begin_call GetCategories d
      in if ok then (sort (remdups (map m_category (movies d1))), d1) else ([], d1))"

text \<open>
  \<open>LIMIT ? OFFSET ?\<close>: a negative offset counts as zero and a negative limit as no limit.
\<close>

text \<open>
  A Python integer bound to a statement must fit SQLite's 64-bit \<open>INTEGER\<close>; otherwise
  the binding raises \<open>OverflowError\<close>, which is no \<open>sqlite3.Error\<close> and leaves the
  method.
\<close>

datatype py_error = OverflowError

definition fits_int64 :: "int \<Rightarrow> bool" where
  "fits_int64 n = (- (2 ^ 63) \<le> n \<and> n < 2 ^ 63)"

definition get_movies_by_category ::
  "pystr \<Rightarrow> int \<Rightarrow> int \<Rightarrow> database \<Rightarrow> (py_error + movie_row list \<times> nat) \<times> database" where
  "get_movies_by_category category page per_page d =
     (let (ok, d1) = begin_call (GetMoviesByCategory category) d
      in if ok
         then (let rows = filter (\<lambda>r. m_category r = category) (movies d1);
                   total_count = length rows;
                   offset = (page - 1) * per_page;
                   sorted_rows = drop (nat offset) (sort_key m_code rows)
               in if fits_int64 per_page \<and> fits_int64 offset
                  then (Inr (if per_page < 0 then sorted_rows
                             else take (nat per_page) sorted_rows,
                             total_count), d1)
                  else (Inl OverflowError, d1))
         else (Inr ([], 0), d1))"

definition get_movie_by_code :: "pystr \<Rightarrow> database \<Rightarrow> movie_row option \<times> database" where
  "get_movie_by_code code d =
     (let (ok, d1) = begin_call (GetMovieByCode code) d
      in if ok then (find (\<lambda>r. m_code r = code) (movies d1), d1) else (None, d1))"

definition add_movie ::
  "pystr \<Rightarrow> pystr \<Rightarrow> pystr \<Rightarrow> int \<Rightarrow> int \<Rightarrow> pystr \<Rightarrow> database \<Rightarrow> bool \<times> database" where
  "add_movie code title category channel_message_id channel_id file_id d =
     (let (ok, d1) = begin_call (AddMovie code) d
      in if ok
         then (True, d1\<lparr>movies := insert_or_replace movies_conflict
                   \<lparr>m_id = Suc (movies_seq d1), m_code = code, m_title = title,
                    m_category = category, m_channel_message_id = channel_message_id,
                    m_channel_id = channel_id, m_file_id = file_id\<rparr>
                   (movies d1),
                 movies_seq := Suc (movies_seq d1)\<rparr>)
         else (False, d1))"

definition search_channel_by_hashtag :: "pystr \<Rightarrow> database \<Rightarrow> video_row list \<times> database" where
  "search_channel_by_hashtag hashtag d =
     (let (ok, d1) = begin_call (SearchChannelByHashtag hashtag) d
      in if ok
         then (order_by_desc v_date
                 (filter (\<lambda>r. like ([37] @ hashtag @ [37]) (v_codes r)) (videos d1)), d1)
         else ([], d1))"

text \<open>
  The \<open>date\<close> column of a pending movie defaults to \<open>CURRENT_TIMESTAMP\<close>, the clock of
  the database, here \<open>now\<close>.
\<close>

definition add_pending_movie ::
  "pystr \<Rightarrow> int \<Rightarrow> int \<Rightarrow> pystr \<Rightarrow> pystr \<Rightarrow> nat \<Rightarrow> database \<Rightarrow> bool \<times> database" where
  "add_pending_movie code channel_message_id channel_id file_id caption now d =
     (let (ok, d1) = begin_call (AddPendingMovie code) d
      in if ok
         then (True, d1\<lparr>pending := insert_or_replace pending_conflict
                   \<lparr>p_id = Suc (pending_seq d1), p_code = code,
                    p_channel_message_id = channel_message_id, p_channel_id = channel_id,
                    p_file_id = file_id, p_caption = caption, p_date = now\<rparr>
                   (pending d1),
                 pending_seq := Suc (pending_seq d1)\<rparr>)
         else (False, d1))"

definition get_pending_movies :: "database \<Rightarrow> pending_row list \<times> database" where
  "get_pending_movies d =
     (let (ok, d1) = begin_call GetPendingMovies d
      in if ok then (order_by_desc p_date (pending d1), d1) else ([], d1))"

text \<open>\<open>fetchone\<close> of a query with no \<open>ORDER BY\<close>: the first matching row in rowid order.\<close>

definition get_pending_movie_by_code :: "pystr \<Rightarrow> database \<Rightarrow> pending_row option \<times> database" where
  "get_pending_movie_by_code code d =
     (let (ok, d1) = begin_call (GetPendingMovieByCode code) d
      in if ok then (find (\<lambda>r. p_code r = code) (pending d1), d1) else (None, d1))"

definition remove_pending_movie :: "pystr \<Rightarrow> database \<Rightarrow> bool \<times> database" where
  "remove_pending_movie code d =
     (let (ok, d1) = begin_call (RemovePendingMovie code) d
      in if ok then (True, d1\<lparr>pending := filter (\<lambda>r. p_code r \<noteq> code) (pending d1)\<rparr>)
         else (False, d1))"

section \<open>handlers.py: the state of the handlers\<close>

text \<open>
  \<open>self.pending_movies\<close> maps a user to the film they are adding: the code, the fields
  read from the pending row when the film was selected, the step of the dialogue, and
  the title once it is collected (the key \<open>'title'\<close> is absent before).
  \<open>self.user_states\<close> maps a user to the genre and page they are browsing.
\<close>

datatype step = Title | Category | NewCategory

record movie_data =
  md_code :: pystr
  md_channel_message_id :: int
  md_channel_id :: int
  md_file_id :: pystr
  md_step :: step
  md_title :: "pystr option"

record nav_state =
  genre :: pystr
  page :: int

record handlers =
  db :: database
  pending_movies :: "int \<rightharpoonup> movie_data"
  user_states :: "int \<rightharpoonup> nav_state"

definition new_handlers :: "database \<Rightarrow> handlers" where
  "new_handlers d = \<lparr>db = d, pending_movies = Map.empty, user_states = Map.empty\<rparr>"

section \<open>handlers.py: indexing channel posts\<close>

text \<open>
  A channel post: the chat and message ids, the file id of its video or video note when
  it has one, and its caption when it has one.
\<close>

record channel_post =
  post_chat_id :: int
  post_message_id :: int
  post_video :: "pystr option"
  post_caption :: "pystr option"

text \<open>What \<open>channel_post_handler\<close> reports on the console.\<close>

datatype index_report = NotVideo | Indexed pystr | IndexFailed

text \<open>
  The loop over \<open>codes.split()\<close>: the marker is removed, the movies table is looked up
  (for a warning on the console only), and the pending movie is added. The date of a
  pending movie is SQLite's \<open>CURRENT_TIMESTAMP\<close> at its insert: \<open>db_clock k\<close> is the
  clock of the database at the \<open>k\<close>-th insert of the post.
\<close>

fun add_pending_codes ::
  "pystr list \<Rightarrow> int \<Rightarrow> int \<Rightarrow> pystr \<Rightarrow> pystr \<Rightarrow> (nat \<Rightarrow> nat) \<Rightarrow> nat \<Rightarrow> database
     \<Rightarrow> database" where
  "add_pending_codes [] message_id chat_id file_id caption db_clock k d = d"
| "add_pending_codes (code # code_list) message_id chat_id file_id caption db_clock k d =
     (let clean_code = replace code [35] [];
          (existing_movie, d1) = get_movie_by_code clean_code d;
          (added, d2) = add_pending_movie clean_code message_id chat_id file_id caption
                          (db_clock k) d1
      in add_pending_codes code_list message_id chat_id file_id caption db_clock (Suc k) d2)"

text \<open>
  \<open>channel_post_handler\<close>; \<open>now\<close> is \<open>datetime.now()\<close> of the process, the date of
  the video.
\<close>

definition channel_post_handler ::
  "unicode \<Rightarrow> nat \<Rightarrow> (nat \<Rightarrow> nat) \<Rightarrow> channel_post \<Rightarrow> handlers \<Rightarrow> index_report \<times> handlers" where
  "channel_post_handler U now db_clock message h =
     (case post_video message of
        None \<Rightarrow> (NotVideo, h)
      | Some file_id \<Rightarrow>
          (let caption = (case post_caption message of None \<Rightarrow> [] | Some c \<Rightarrow> c);
               (success, d1) = save_video U (post_chat_id message) (post_message_id message)
                                 file_id caption now (db h)
           in if success
              then (let codes = extract_hashtags_as_codes U caption;
                        d2 = (if codes \<noteq> []
                              then add_pending_codes (split_ws U codes) (post_message_id message)
                                     (post_chat_id message) file_id caption db_clock 0 d1
                              else d1)
                    in (Indexed codes, h\<lparr>db := d2\<rparr>))
              else (IndexFailed, h\<lparr>db := d1\<rparr>)))"

section \<open>handlers.py: searching a code\<close>

text \<open>
  A search result is a row of the movies table (tagged \<open>'movie'\<close> in the source) or a
  row of the videos table (tagged \<open>'video'\<close>).
\<close>

datatype result = Movie movie_row | Video video_row

text \<open>\<open>_validate_movie_code\<close>: the movie is read again and compared with the first read.\<close>

definition validate_movie_code :: "movie_row \<Rightarrow> pystr \<Rightarrow> database \<Rightarrow> bool \<times> database" where
  "validate_movie_code movie code d =
     (let (current_movie, d1) = get_movie_by_code code d
      in case current_movie of
           None \<Rightarrow> (False, d1)
         | Some cur \<Rightarrow>
             (if m_title cur \<noteq> m_title movie \<or> m_category cur \<noteq> m_category movie
                 \<or> m_code cur \<noteq> m_code movie
              then (False, d1) else (True, d1)))"

text \<open>
  \<open>_validate_channel_code\<close>: the channel search is run again, and the video must be
  among its rows, by chat id and message id.
\<close>

definition validate_channel_code :: "video_row \<Rightarrow> pystr \<Rightarrow> database \<Rightarrow> bool \<times> database" where
  "validate_channel_code channel_result code d =
     (let (current_channel_results, d1) = search_channel_by_hashtag (35 # code) d
      in if current_channel_results = [] then (False, d1)
         else (list_ex (\<lambda>cur. v_chat_id cur = v_chat_id channel_result
                              \<and> v_message_id cur = v_message_id channel_result)
                 current_channel_results, d1))"

text \<open>
  The loop over the rows of the channel search: the first row whose \<open>codes\<close> text is
  not empty, has \<open>#code\<close> in it and passes the validation is taken, and the loop ends.
\<close>

fun scan_channel_results :: "video_row list \<Rightarrow> pystr \<Rightarrow> database \<Rightarrow> result list \<times> database" where
  "scan_channel_results [] code d = ([], d)"
| "scan_channel_results (channel_result # rest) code d =
     (if v_codes channel_result \<noteq> [] \<and> contains (v_codes channel_result) (35 # code)
      then (let (valid, d1) = validate_channel_code channel_result code d
            in if valid then ([Video channel_result], d1)
               else scan_channel_results rest code d1)
      else scan_channel_results rest code d)"

text \<open>
  The first part of \<open>_search_and_send_results\<close>: the movies table, then, when it gave
  no result, the channel videos.
\<close>

definition exact_lookup :: "pystr \<Rightarrow> database \<Rightarrow> result list \<times> database" where
  "exact_lookup code d =
     (let (movie, d1) = get_movie_by_code code d;
          (results, d2) =
            (case movie of
               None \<Rightarrow> ([], d1)
             | Some m \<Rightarrow>
                 (let (valid, d') = validate_movie_code m code d1
                  in if valid then ([Movie m], d') else ([], d')))
      in if results = []
         then (let (channel_results, d3) = search_channel_by_hashtag (35 # code) d2
               in scan_channel_results channel_results code d3)
         else (results, d2))"

text \<open>The prefixes tried for a short numeric code: M, A, C, D, H, S, F, T.\<close>

definition prefixes :: "pystr list" where
  "prefixes = [lit ''M'', lit ''A'', lit ''C'', lit ''D'', lit ''H'', lit ''S'', lit ''F'', lit ''T'']"

text \<open>The first loop over the prefixes: the movies table, ending at the first movie found.\<close>

fun prefix_movies :: "pystr list \<Rightarrow> pystr \<Rightarrow> database \<Rightarrow> result list \<times> database" where
  "prefix_movies [] code d = ([], d)"
| "prefix_movies (prefix # rest) code d =
     (let full_code = prefix @ code;
          (movie, d1) = get_movie_by_code full_code d
      in case movie of
           Some m \<Rightarrow> ([Movie m], d1)
         | None \<Rightarrow> prefix_movies rest code d1)"

text \<open>The inner loop of the second one: the first row with \<open>#full_code\<close> in its codes.\<close>

fun first_with_code :: "video_row list \<Rightarrow> pystr \<Rightarrow> result list" where
  "first_with_code [] tag = []"
| "first_with_code (channel_result # rest) tag =
     (if v_codes channel_result \<noteq> [] \<and> contains (v_codes channel_result) tag
      then [Video channel_result] else first_with_code rest tag)"

text \<open>The second loop over the prefixes: the channel videos.\<close>

fun prefix_videos :: "pystr list \<Rightarrow> pystr \<Rightarrow> database \<Rightarrow> result list \<times> database" where
  "prefix_videos [] code d = ([], d)"
| "prefix_videos (prefix # rest) code d =
     (let full_code = prefix @ code;
          (channel_results, d1) = search_channel_by_hashtag (35 # full_code) d;
          results = first_with_code channel_results (35 # full_code)
      in if results \<noteq> [] then (results, d1) else prefix_videos rest code d1)"

definition prefix_fallback :: "pystr \<Rightarrow> database \<Rightarrow> result list \<times> database" where
  "prefix_fallback code d =
     (let (results, d1) = prefix_movies prefixes code d
      in if results = [] then prefix_videos prefixes code d1 else (results, d1))"

text \<open>
  \<open>_search_and_send_results\<close>. The results are sent to the user; an empty list stands
  for the reply that no film was found.
\<close>

definition search_and_send_results :: "unicode \<Rightarrow> pystr \<Rightarrow> database \<Rightarrow> result list \<times> database" where
  "search_and_send_results U code d =
     (let (results, d1) = exact_lookup code d
      in if results \<noteq> [] then (results, d1)
         else if isdigit U code \<and> length code \<le> 3 \<and> \<not> startswith code (lit ''0'')
         then prefix_fallback code d1
         else ([], d1))"

section \<open>handlers.py: the reply keyboard\<close>

text \<open>
  The texts of the buttons. The pictographs are \<open>U+1F4C1\<close> (folder), \<open>U+1F50D\<close>
  (magnifying glass), \<open>U+1F4DA\<close> (books), \<open>U+2139 U+FE0F\<close> (information),
  \<open>U+1F3E0\<close> (house), \<open>U+2B05 U+FE0F\<close> (left arrow), \<open>U+27A1 U+FE0F\<close> (right
  arrow), \<open>U+1F3AC\<close> (clapper board) and \<open>U+2795\<close> (plus).
\<close>

definition folder :: pystr where "folder = [128193]"
definition magnifier :: pystr where "magnifier = [128269]"
definition books :: pystr where "books = [128218]"
definition information :: pystr where "information = [8505, 65039]"
definition house :: pystr where "house = [127968]"
definition left_arrow :: pystr where "left_arrow = [11013, 65039]"
definition right_arrow :: pystr where "right_arrow = [10145, 65039]"
definition clapper :: pystr where "clapper = [127916]"
definition plus_sign :: pystr where "plus_sign = [10133]"

definition btn_browse :: pystr where
  "btn_browse = folder @ lit '' Kategoriya bo'' @ [39] @ lit ''yicha ko'' @ [39] @ lit ''rish''"

definition btn_search :: pystr where
  "btn_search = magnifier @ lit '' Kod bo'' @ [39] @ lit ''yicha qidirish''"

definition btn_help :: pystr where
  "btn_help = books @ lit '' Yordam''"

definition btn_about :: pystr where
  "btn_about = information @ lit '' Ma'' @ [39] @ lit ''lumot''"

definition btn_main_menu :: pystr where
  "btn_main_menu = house @ lit '' Asosiy menyu''"

definition btn_new_category :: pystr where
  "btn_new_category = plus_sign @ lit '' Yangi kategoriya qo'' @ [39] @ lit ''shish''"

definition btn_back_to_genres :: pystr where
  "btn_back_to_genres = left_arrow @ lit '' Janrlarga qaytish''"

definition btn_previous_page :: pystr where
  "btn_previous_page = left_arrow @ lit '' Oldingi sahifa''"

definition btn_next_page :: pystr where
  "btn_next_page = right_arrow @ lit '' Keyingi sahifa''"

text \<open>The tuple of pictographs that a direct code search must not start with.\<close>

definition button_marks :: "pystr list" where
  "button_marks = [folder, magnifier, books, information, house, left_arrow, clapper]"

text \<open>
  \<open>s.split(sep)[0]\<close>, the text before the first \<open>sep\<close>, and \<open>s.split(sep)[-1]\<close>,
  the text after the last one; \<open>sep\<close> is a non-empty literal in the source.
\<close>

fun before_first :: "pystr \<Rightarrow> pystr \<Rightarrow> pystr" where
  "before_first [] sep = []"
| "before_first (c # cs) sep =
     (if startswith (c # cs) sep then [] else c # before_first cs sep)"

fun after_last :: "pystr \<Rightarrow> pystr \<Rightarrow> pystr" where
  "after_last [] sep = []"
| "after_last (c # cs) sep =
     (if contains (c # cs) sep
      then (if startswith (c # cs) sep \<and> \<not> contains (drop (length sep) (c # cs)) sep
            then drop (length sep) (c # cs) else after_last cs sep)
      else c # cs)"

section \<open>handlers.py: what the bot sends\<close>

datatype reply =
    SearchResults "result list"
  | SearchPrompt
  | Welcome
  | HelpText
  | AboutText
  | NoCategories
  | CategoriesMenu "(pystr \<times> nat) list"
  | NoMoviesInGenre pystr
  | MoviesPage pystr int "movie_row list" nat
  | LoadError
  | NextPageError
  | PendingNotFound
  | AskTitle pystr
  | PendingDataMissing
  | MovieAdded pystr pystr pystr
  | AddMovieFailed pystr pystr
  | GenreSelectionError
  | AskNewCategoryName
  | AlreadyFirstPage
  | AlreadyLastPage
  | NoNavigationState
  | NoGenreSelected
  | InvalidTitle
  | TitleSaved pystr
  | UseCategoryButton
  | InvalidCategoryName
  | ProcessingError
  | UseHelp

section \<open>handlers.py: browsing\<close>

text \<open>
  The loop of \<open>categories_command\<close>: the number of movies of each category. Nothing
  in \<open>categories_command\<close> catches an exception: it leaves the handler, and no reply is
  sent.
\<close>

fun category_counts ::
  "pystr list \<Rightarrow> database \<Rightarrow> (py_error + (pystr \<times> nat) list) \<times> database" where
  "category_counts [] d = (Inr [], d)"
| "category_counts (category # rest) d =
     (case get_movies_by_category category 1 1 d of
        (Inl e, d1) \<Rightarrow> (Inl e, d1)
      | (Inr (movies_found, total_count), d1) \<Rightarrow>
          (case category_counts rest d1 of
             (Inl e, d2) \<Rightarrow> (Inl e, d2)
           | (Inr keyboard, d2) \<Rightarrow> (Inr ((category, total_count) # keyboard), d2)))"

definition categories_command :: "handlers \<Rightarrow> reply list \<times> handlers" where
  "categories_command h =
     (let (categories, d1) = get_categories (db h)
      in if categories = [] then ([NoCategories], h\<lparr>db := d1\<rparr>)
         else (case category_counts categories d1 of
                 (Inl e, d2) \<Rightarrow> ([], h\<lparr>db := d2\<rparr>)
               | (Inr keyboard, d2) \<Rightarrow> ([CategoriesMenu keyboard], h\<lparr>db := d2\<rparr>)))"

text \<open>\<open>show_movies_in_genre\<close> catches every exception and replies that loading failed.\<close>

definition show_movies_in_genre :: "pystr \<Rightarrow> int \<Rightarrow> handlers \<Rightarrow> reply list \<times> handlers" where
  "show_movies_in_genre g p h =
     (case get_movies_by_category g p 8 (db h) of
        (Inl e, d1) \<Rightarrow> ([LoadError], h\<lparr>db := d1\<rparr>)
      | (Inr (db_movies, db_total_count), d1) \<Rightarrow>
          (if db_movies = [] then ([NoMoviesInGenre g], h\<lparr>db := d1\<rparr>)
           else ([MoviesPage g p db_movies db_total_count], h\<lparr>db := d1\<rparr>)))"

text \<open>The branch of the button for the previous page.\<close>

definition previous_page :: "int \<Rightarrow> handlers \<Rightarrow> reply list \<times> handlers" where
  "previous_page user_id h =
     (case user_states h user_id of
        None \<Rightarrow> ([NoNavigationState], h)
      | Some state \<Rightarrow>
          (let current_page = page state
           in if current_page > 1
              then (let new_page = current_page - 1
                    in show_movies_in_genre (genre state) new_page
                         (h\<lparr>user_states := (user_states h)(user_id \<mapsto> state\<lparr>page := new_page\<rparr>)\<rparr>))
              else ([AlreadyFirstPage], h)))"

text \<open>
  The branch of the button for the next page; an exception in it is caught and answered
  with an error about the next page.
\<close>

definition next_page :: "int \<Rightarrow> handlers \<Rightarrow> reply list \<times> handlers" where
  "next_page user_id h =
     (case user_states h user_id of
        None \<Rightarrow> ([NoNavigationState], h)
      | Some state \<Rightarrow>
          (let current_page = page state;
               g = genre state
           in if g = [] then ([NoGenreSelected], h)
              else (case get_movies_by_category g 1 8 (db h) of
                      (Inl e, d1) \<Rightarrow> ([NextPageError], h\<lparr>db := d1\<rparr>)
                    | (Inr (movies_found, total_count), d1) \<Rightarrow>
                        (let total_pages = (int total_count + 8 - 1) div 8;
                             h1 = h\<lparr>db := d1\<rparr>
                         in if current_page < total_pages
                            then (let new_page = current_page + 1
                                  in show_movies_in_genre g new_page
                                       (h1\<lparr>user_states :=
                                             (user_states h1)(user_id \<mapsto>
                                                state\<lparr>page := new_page\<rparr>)\<rparr>))
                            else ([AlreadyLastPage], h1)))))"

section \<open>handlers.py: adding a movie\<close>

text \<open>
  \<open>handle_callback_query\<close> for the data \<open>add_movie_<code>\<close>: the pending movie is
  read and the dialogue starts at the title.
\<close>

definition handle_callback_query :: "int \<Rightarrow> pystr \<Rightarrow> handlers \<Rightarrow> reply list \<times> handlers" where
  "handle_callback_query user_id data h =
     (if startswith data (lit ''add_movie_'')
      then (let code = replace data (lit ''add_movie_'') [];
                (pending_movie, d1) = get_pending_movie_by_code code (db h);
                h1 = h\<lparr>db := d1\<rparr>
            in case pending_movie of
                 None \<Rightarrow> ([PendingNotFound], h1)
               | Some pm \<Rightarrow>
                   ([AskTitle code],
                    h1\<lparr>pending_movies := (pending_movies h1)(user_id \<mapsto>
                         \<lparr>md_code = code, md_channel_message_id = p_channel_message_id pm,
                          md_channel_id = p_channel_id pm, md_file_id = p_file_id pm,
                          md_step = Title, md_title = None\<rparr>)\<rparr>))
      else ([], h))"

text \<open>
  The last step of the dialogue, written twice in \<open>handle_message\<close> (for a category
  chosen by button and for a new category typed in): the pending movie is read again by
  its code, the movie is added, and when that succeeded the pending movie is removed and
  the entry of the user in \<open>self.pending_movies\<close> is deleted.
\<close>

definition commit_movie :: "int \<Rightarrow> pystr \<Rightarrow> pystr \<Rightarrow> pystr \<Rightarrow> handlers \<Rightarrow> reply list \<times> handlers" where
  "commit_movie user_id title category code h =
     (let (pending_movie, d1) = get_pending_movie_by_code code (db h)
      in case pending_movie of
           None \<Rightarrow> ([PendingDataMissing], h\<lparr>db := d1\<rparr>)
         | Some pm \<Rightarrow>
             (let (success, d2) = add_movie code title category (p_channel_message_id pm)
                                    (p_channel_id pm) (p_file_id pm) d1
              in if success
                 then (let (removed, d3) = remove_pending_movie code d2
                       in ([MovieAdded title category code],
                           h\<lparr>db := d3, pending_movies := (pending_movies h)(user_id := None)\<rparr>))
                 else ([AddMovieFailed title code], h\<lparr>db := d2\<rparr>)))"

text \<open>
  The second half of \<open>handle_message\<close>, reached when no button matched: the text is a
  step of the dialogue of a user who is adding a movie.
\<close>

definition movie_addition :: "unicode \<Rightarrow> int \<Rightarrow> pystr \<Rightarrow> handlers \<Rightarrow> reply list \<times> handlers" where
  "movie_addition U user_id text h =
     (case pending_movies h user_id of
        None \<Rightarrow> ([UseHelp], h)
      | Some movie_data \<Rightarrow>
          (let message_text = strip U text
           in case md_step movie_data of
                Title \<Rightarrow>
                  (if message_text = [] then ([InvalidTitle], h)
                   else ([TitleSaved message_text],
                         h\<lparr>pending_movies := (pending_movies h)(user_id \<mapsto>
                              movie_data\<lparr>md_title := Some message_text, md_step := Category\<rparr>)\<rparr>))
              | Category \<Rightarrow> ([UseCategoryButton], h)
              | NewCategory \<Rightarrow>
                  (if message_text = [] then ([InvalidCategoryName], h)
                   else (case md_title movie_data of
                           None \<Rightarrow> ([ProcessingError], h)
                         | Some title \<Rightarrow>
                             commit_movie user_id title message_text (md_code movie_data) h))))"

section \<open>handlers.py: text messages\<close>

definition handle_message :: "unicode \<Rightarrow> int \<Rightarrow> pystr \<Rightarrow> handlers \<Rightarrow> reply list \<times> handlers" where
  "handle_message U user_id message_text h =
     (if message_text \<noteq> []
      then (let text = strip U message_text
            in if length text \<le> 10 \<and> isdigit U text \<and> \<not> startswith_any text button_marks
               then (let (results, d1) = search_and_send_results U text (db h)
                     in ([SearchResults results], h\<lparr>db := d1\<rparr>))
               else if text = btn_browse then categories_command h
               else if text = btn_search then ([SearchPrompt], h)
               else if text = btn_help then ([HelpText], h)
               else if text = btn_about then ([AboutText], h)
               else if text = btn_main_menu then ([Welcome], h)
               else if startswith text (folder @ lit '' '') \<and> pending_movies h user_id \<noteq> None
               then (case pending_movies h user_id of
                       None \<Rightarrow> movie_addition U user_id message_text h
                     | Some movie_data \<Rightarrow>
                         (if md_step movie_data = Category
                          then (let g = replace text (folder @ lit '' '') []
                                in case md_title movie_data of
                                     None \<Rightarrow> ([GenreSelectionError], h)
                                   | Some title \<Rightarrow>
                                       commit_movie user_id title g (md_code movie_data) h)
                          else movie_addition U user_id message_text h))
               else if text = btn_new_category \<and> pending_movies h user_id \<noteq> None
               then (case pending_movies h user_id of
                       None \<Rightarrow> movie_addition U user_id message_text h
                     | Some movie_data \<Rightarrow>
                         (if md_step movie_data = Category
                          then ([AskNewCategoryName],
                                h\<lparr>pending_movies := (pending_movies h)(user_id \<mapsto>
                                     movie_data\<lparr>md_step := NewCategory\<rparr>)\<rparr>)
                          else movie_addition U user_id message_text h))
               else if text = btn_back_to_genres
               then categories_command (h\<lparr>user_states := (user_states h)(user_id := None)\<rparr>)
               else if startswith text (folder @ lit '' '')
               then (let g = before_first (replace text (folder @ lit '' '') []) (lit '' ('')
                     in show_movies_in_genre g 1
                          (h\<lparr>user_states := (user_states h)(user_id \<mapsto> \<lparr>genre = g, page = 1\<rparr>)\<rparr>))
               else if startswith text (clapper @ lit '' '')
               then (if contains text (lit ''('') \<and> contains text (lit '')'')
                     then (let code = before_first (after_last text (lit ''('')) (lit '')'');
                               (results, d1) = search_and_send_results U code (db h)
                           in ([SearchResults results], h\<lparr>db := d1\<rparr>))
                     else movie_addition U user_id message_text h)
               else if text = btn_previous_page then previous_page user_id h
               else if text = btn_next_page then next_page user_id h
               else movie_addition U user_id message_text h)
      else movie_addition U user_id message_text h)"

section \<open>Notions of the specification\<close>

text \<open>The \<open>n\<close>-th of the coming SQLite transactions fails (counting from 0).\<close>

definition fault_at :: "nat \<Rightarrow> bool list \<Rightarrow> bool" where
  "fault_at n fs = (n < length fs \<and> fs ! n)"

definition nth_fault :: "nat \<Rightarrow> database \<Rightarrow> bool" where
  "nth_fault n d = fault_at n (faults d)"

text \<open>
  \<open>p\<close> is the last page of \<open>n\<close> entries at 8 entries a page, \<open>p = ceil(n / 8)\<close>: the
  least number of pages that hold them all.
\<close>

definition is_last_page :: "nat \<Rightarrow> int \<Rightarrow> bool" where
  "is_last_page n p = (8 * (p - 1) < int n \<and> int n \<le> 8 * p)"

definition count_in_category :: "pystr \<Rightarrow> database \<Rightarrow> nat" where
  "count_in_category g d = length (filter (\<lambda>r. m_category r = g) (movies d))"

text \<open>
  The store as the resolver's lookups see it: the catalog entry of a code; the raw items
  newest first; and the raw item of a code, the first of them, newest first, whose codes
  hold the code with its marker.
\<close>

definition movie_of :: "database \<Rightarrow> pystr \<Rightarrow> movie_row option" where
  "movie_of d c = find (\<lambda>r. m_code r = c) (movies d)"

definition newest_first :: "database \<Rightarrow> video_row list" where
  "newest_first d = order_by_desc v_date (videos d)"

definition raw_match :: "database \<Rightarrow> pystr \<Rightarrow> video_row option" where
  "raw_match d c = find (\<lambda>r. contains (v_codes r) (35 # c)) (newest_first d)"

text \<open>The elements of a list up to the first that satisfies \<open>P\<close>, that one included.\<close>

definition until_first :: "('a \<Rightarrow> bool) \<Rightarrow> 'a list \<Rightarrow> 'a list" where
  "until_first P xs = takeWhile (\<lambda>x. \<not> P x) xs @ take 1 (dropWhile (\<lambda>x. \<not> P x) xs)"

text \<open>
  The codes that the prefix fallback guesses for a code, in the order of the prefixes;
  the first catalog entry among them, and the first raw item among them.
\<close>

definition candidates :: "pystr \<Rightarrow> pystr list" where
  "candidates code = map (\<lambda>prefix. prefix @ code) prefixes"

definition first_movie :: "database \<Rightarrow> pystr list \<Rightarrow> movie_row list" where
  "first_movie d cs = take 1 (List.map_filter (movie_of d) cs)"

definition first_video :: "database \<Rightarrow> pystr list \<Rightarrow> video_row list" where
  "first_video d cs = take 1 (List.map_filter (raw_match d) cs)"

text \<open>A code that is purely numeric, 1 to 3 digits long, and does not start with 0.\<close>

definition short_number :: "unicode \<Rightarrow> pystr \<Rightarrow> bool" where
  "short_number U code =
     (isdigit U code \<and> 1 \<le> length code \<and> length code \<le> 3 \<and> \<not> startswith code (lit ''0''))"

text \<open>The calls that a search makes after its exact lookups: those of the fallback.\<close>

definition fallback_calls :: "unicode \<Rightarrow> pystr \<Rightarrow> database \<Rightarrow> db_call list" where
  "fallback_calls U code d =
     drop (length (calls (snd (exact_lookup code d))))
       (calls (snd (search_and_send_results U code d)))"

text \<open>
  The raw items that hold a code with its marker, newest first; the number of coming
  transactions that fail in a row; and two rows with the same identity, chat id and
  message id.
\<close>

definition raw_candidates :: "database \<Rightarrow> pystr \<Rightarrow> video_row list" where
  "raw_candidates d c = filter (\<lambda>r. contains (v_codes r) (35 # c)) (newest_first d)"

definition leading_failures :: "bool list \<Rightarrow> nat" where
  "leading_failures fs = length (takeWhile (\<lambda>f. f) fs)"

definition same_identity :: "video_row \<Rightarrow> video_row \<Rightarrow> bool" where
  "same_identity a b = (v_chat_id a = v_chat_id b \<and> v_message_id a = v_message_id b)"

text \<open>The rows that the channel search returns for a tag.\<close>

definition channel_rows :: "database \<Rightarrow> pystr \<Rightarrow> video_row list" where
  "channel_rows d t =
     order_by_desc v_date (filter (\<lambda>r. like (37 # t @ [37]) (v_codes r)) (videos d))"

text \<open>The guesses for the code \<open>7\<close>.\<close>

definition seven_guesses :: "pystr list" where
  "seven_guesses = [lit ''M7'', lit ''A7'', lit ''C7'', lit ''D7'', lit ''H7'', lit ''S7'',
     lit ''F7'', lit ''T7'']"

text \<open>A database after more calls were recorded, and a list in falling order of a key.\<close>

definition logged :: "database \<Rightarrow> db_call list \<Rightarrow> database" where
  "logged d cs = d\<lparr>calls := calls d @ cs\<rparr>"

definition desc :: "('r \<Rightarrow> nat) \<Rightarrow> 'r list \<Rightarrow> bool" where
  "desc k xs = sorted_wrt (\<lambda>a b. k b \<le> k a) xs"

text \<open>The texts that \<open>handle_message\<close> answers as a button whatever the dialogue.\<close>

definition fixed_buttons :: "pystr list" where
  "fixed_buttons = [btn_browse, btn_search, btn_help, btn_about, btn_main_menu,
     btn_back_to_genres, btn_previous_page, btn_next_page]"

text \<open>A text of at most 10 digits: \<open>handle_message\<close> searches it as a code.\<close>

definition numeric_code :: "unicode \<Rightarrow> pystr \<Rightarrow> bool" where
  "numeric_code U t = (length t \<le> 10 \<and> isdigit U t)"

text \<open>The text of a movie button: it starts with the clapper board and has both brackets.\<close>

definition movie_button :: "pystr \<Rightarrow> bool" where
  "movie_button t =
     (startswith t (clapper @ lit '' '') \<and> contains t (lit ''('') \<and> contains t (lit '')''))"

section \<open>Example inputs\<close>

definition post_a12 :: channel_post where
  "post_a12 = \<lparr>post_chat_id = - 100, post_message_id = 7, post_video = Some (lit ''f1''),
     post_caption = Some (lit ''Big Movie #A12'')\<rparr>"

definition post_a12_again :: channel_post where
  "post_a12_again = \<lparr>post_chat_id = - 100, post_message_id = 8, post_video = Some (lit ''f2''),
     post_caption = Some (lit ''Remake #A12'')\<rparr>"

text \<open>
  A database whose one video carries the code \<open>#A123\<close>; and one with the movie \<open>A7\<close>
  in the catalog and a video that carries \<open>#M7\<close>.
\<close>

definition video_a123 :: video_row where
  "video_a123 = \<lparr>v_id = 1, v_chat_id = - 100, v_message_id = 9, v_file_id = lit ''f3'',
     v_caption = lit ''Saga #A123'', v_codes = lit ''#A123'', v_date = 3\<rparr>"

definition db_a123 :: database where
  "db_a123 = empty_db\<lparr>videos := [video_a123], videos_seq := 1\<rparr>"

definition movie_a7 :: movie_row where
  "movie_a7 = \<lparr>m_id = 1, m_code = lit ''A7'', m_title = lit ''Seven'',
     m_category = lit ''Drama'', m_channel_message_id = 5, m_channel_id = - 100,
     m_file_id = lit ''f5''\<rparr>"

definition video_m7 :: video_row where
  "video_m7 = \<lparr>v_id = 1, v_chat_id = - 100, v_message_id = 6, v_file_id = lit ''f6'',
     v_caption = lit ''Heist #M7'', v_codes = lit ''#M7'', v_date = 4\<rparr>"

definition db_a7_m7 :: database where
  "db_a7_m7 = empty_db\<lparr>videos := [video_m7], videos_seq := 1, movies := [movie_a7],
     movies_seq := 1\<rparr>"

text \<open>
  A database with two videos that carry \<open>#A12\<close>, whose third transaction from now will
  fail.
\<close>

definition video_a12_old :: video_row where
  "video_a12_old = \<lparr>v_id = 1, v_chat_id = - 100, v_message_id = 7, v_file_id = lit ''f1'',
     v_caption = lit ''Big Movie #A12'', v_codes = lit ''#A12'', v_date = 1\<rparr>"

definition video_a12_new :: video_row where
  "video_a12_new = \<lparr>v_id = 2, v_chat_id = - 100, v_message_id = 11, v_file_id = lit ''f4'',
     v_caption = lit ''Big Movie HD #A12'', v_codes = lit ''#A12'', v_date = 5\<rparr>"

definition db_two_a12 :: database where
  "db_two_a12 = empty_db\<lparr>videos := [video_a12_old, video_a12_new], videos_seq := 2,
     faults := [False, False, True]\<rparr>"

text \<open>
  The database after the first of these posts was indexed, and a user (number 1) at each
  step of the dialogue for the code \<open>A12\<close>.
\<close>

definition video_a12 :: video_row where
  "video_a12 = \<lparr>v_id = 1, v_chat_id = - 100, v_message_id = 7, v_file_id = lit ''f1'',
     v_caption = lit ''Big Movie #A12'', v_codes = lit ''#A12'', v_date = 1\<rparr>"

definition pending_a12 :: pending_row where
  "pending_a12 = \<lparr>p_id = 1, p_code = lit ''A12'', p_channel_message_id = 7,
     p_channel_id = - 100, p_file_id = lit ''f1'', p_caption = lit ''Big Movie #A12'',
     p_date = 1\<rparr>"

definition db_a12 :: database where
  "db_a12 = \<lparr>videos = [video_a12], movies = [], pending = [pending_a12], videos_seq = 1,
     movies_seq = 0, pending_seq = 1, faults = [], calls = []\<rparr>"

definition data_a12 :: "step \<Rightarrow> pystr option \<Rightarrow> movie_data" where
  "data_a12 s t = \<lparr>md_code = lit ''A12'', md_channel_message_id = 7, md_channel_id = - 100,
     md_file_id = lit ''f1'', md_step = s, md_title = t\<rparr>"

definition h_title :: handlers where
  "h_title = \<lparr>db = db_a12, pending_movies = [1 \<mapsto> data_a12 Title None],
     user_states = Map.empty\<rparr>"

definition h_category :: handlers where
  "h_category = \<lparr>db = db_a12,
     pending_movies = [1 \<mapsto> data_a12 Category (Some (lit ''Big Movie''))],
     user_states = Map.empty\<rparr>"

text \<open>The same, with a database whose second transaction from now will fail.\<close>

definition h_category_failing :: handlers where
  "h_category_failing = h_category\<lparr>db := db_a12\<lparr>faults := [False, True]\<rparr>\<rparr>"

text \<open>The same, after the pending movie vanished from the table.\<close>

definition h_category_vanished :: handlers where
  "h_category_vanished = h_category\<lparr>db := db_a12\<lparr>pending := []\<rparr>\<rparr>"

text \<open>
  A catalog with one movie whose category is the empty text, and a user browsing the
  empty genre at page 1.
\<close>

definition movie_no_category :: movie_row where
  "movie_no_category = \<lparr>m_id = 1, m_code = lit ''A12'', m_title = lit ''Big Movie'',
     m_category = [], m_channel_message_id = 7, m_channel_id = - 100, m_file_id = lit ''f1''\<rparr>"

definition h_empty_genre :: handlers where
  "h_empty_genre = \<lparr>db = empty_db\<lparr>movies := [movie_no_category], movies_seq := 1\<rparr>,
     pending_movies = Map.empty, user_states = [1 \<mapsto> \<lparr>genre = [], page = 1\<rparr>]\<rparr>"

text \<open>A catalog with ten movies of the category \<open>Drama\<close>, and a user at its page 2.\<close>

definition drama :: "nat \<Rightarrow> movie_row" where
  "drama n = \<lparr>m_id = n, m_code = [68, 48 + n], m_title = lit ''Film'',
     m_category = lit ''Drama'', m_channel_message_id = int n, m_channel_id = - 100,
     m_file_id = lit ''f''\<rparr>"

definition h_drama :: handlers where
  "h_drama = \<lparr>db = empty_db\<lparr>movies := map drama [0..<10], movies_seq := 10\<rparr>,
     pending_movies = Map.empty,
     user_states = [1 \<mapsto> \<lparr>genre = lit ''Drama'', page = 2\<rparr>, 2 \<mapsto> \<lparr>genre = lit ''Drama'', page = 1\<rparr>]\<rparr>"


section \<open>Evaluation rules\<close>

lemmas text_simps = lit_def isword_cp_def isspace_cp_def isdigit_cp_def isdigit_def
  keyboard_pictograph_def
  startswith_any_def strip_def ascii_fold_def ascii_only_def

lemmas db_simps = fits_int64_def save_video_def begin_call_def insert_or_replace_def videos_conflict_def
  movies_conflict_def pending_conflict_def empty_db_def extract_hashtags_as_codes_def
  get_movie_by_code_def add_pending_movie_def add_movie_def get_pending_movie_by_code_def
  remove_pending_movie_def search_channel_by_hashtag_def order_by_desc_def
  get_movies_by_category_def

lemmas example_defs = h_title_def h_category_def h_category_failing_def h_category_vanished_def
  db_a12_def video_a12_def pending_a12_def data_a12_def h_empty_genre_def movie_no_category_def
  h_drama_def drama_def

section \<open>The codes of a caption\<close>

lemma hash_not_word: "\<not> isword_cp U 35"
  by (simp add: isword_cp_def)

lemma upt_Suc_shift: "[0..<Suc n] = 0 # map Suc [0..<n]"
  by (simp add: upt_conv_Cons map_Suc_upt del: upt_Suc)

lemma maximal_tokens_Nil: "maximal_tokens U [] = []"
  by (simp add: maximal_tokens_def)

lemma maximal_tokens_Cons:
  "maximal_tokens U (c # cs) =
     (if c = 35 \<and> takeWhile (isword_cp U) cs \<noteq> []
      then [35 # takeWhile (isword_cp U) cs] else []) @ maximal_tokens U cs"
proof -
  have a: "token_starts U (x # cs) (Suc i) = token_starts U cs i" for i x
    by (simp add: token_starts_def)
  have b: "token_at U (x # cs) (Suc i) = token_at U cs i" for i x
    by (simp add: token_at_def)
  have c: "token_starts U (c # cs) 0 = (c = 35 \<and> takeWhile (isword_cp U) cs \<noteq> [])"
    by (cases cs) (auto simp: token_starts_def)
  have d: "token_at U (x # cs) 0 = 35 # takeWhile (isword_cp U) cs" for x
    by (simp add: token_at_def)
  show ?thesis
    unfolding maximal_tokens_def length_Cons upt_Suc_shift
    by (simp add: a b c d filter_map comp_def del: upt_Suc)
qed

text \<open>The word characters after a token hold no \<open>#\<close>, so no token starts inside them.\<close>

lemma maximal_tokens_dropWhile:
  "maximal_tokens U (dropWhile (isword_cp U) cs) = maximal_tokens U cs"
proof (induction cs)
  case Nil
  then show ?case by simp
next
  case (Cons x xs)
  show ?case
  proof (cases "isword_cp U x")
    case True
    then have "x \<noteq> 35" using hash_not_word by auto
    with True Cons show ?thesis by (simp add: maximal_tokens_Cons)
  next
    case False
    then show ?thesis by simp
  qed
qed

lemma findall_hashtags_maximal: "findall_hashtags U s = maximal_tokens U s"
proof (induction U s rule: findall_hashtags.induct)
  case (1 U)
  show ?case by (simp add: maximal_tokens_Nil)
next
  case (2 U c cs)
  then show ?case
    by (simp add: maximal_tokens_Cons maximal_tokens_dropWhile)
qed

lemma take_length_takeWhile: "take (length (takeWhile P xs)) xs = takeWhile P xs"
  by (induction xs) auto

text \<open>
  Each token is a substring of the caption that starts at its position, is \<open>#\<close> and
  then word characters only, at least one, and cannot be extended to the right; it
  cannot be extended to the left either, since a token holds no \<open>#\<close> but its first
  character.
\<close>

lemma token_at_maximal:
  assumes "token_starts U s i"
  shows "\<exists>n. token_at U s i = take n (drop i s) \<and> 2 \<le> n \<and> i + n \<le> length s
           \<and> list_all (isword_cp U) (tl (token_at U s i))
           \<and> (i + n < length s \<longrightarrow> \<not> isword_cp U (s ! (i + n)))"
proof -
  let ?w = "takeWhile (isword_cp U) (drop (Suc i) s)"
  let ?n = "Suc (length ?w)"
  from assms have i: "Suc i < length s" and h: "s ! i = 35" and w: "isword_cp U (s ! Suc i)"
    by (auto simp: token_starts_def)
  have d: "drop i s = 35 # drop (Suc i) s"
    using i h by (metis Cons_nth_drop_Suc Suc_lessD)
  have 1: "token_at U s i = take ?n (drop i s)"
    by (simp add: token_at_def d take_length_takeWhile)
  have "drop (Suc i) s = s ! Suc i # drop (Suc (Suc i)) s"
    using i by (simp add: Cons_nth_drop_Suc)
  with w have 2: "2 \<le> ?n" by simp
  have "length ?w \<le> length (drop (Suc i) s)" by (rule length_takeWhile_le)
  with i have 3: "i + ?n \<le> length s" by simp
  have 4: "list_all (isword_cp U) (tl (token_at U s i))"
    by (simp add: token_at_def list_all_iff) (meson set_takeWhileD)
  have 5: "i + ?n < length s \<longrightarrow> \<not> isword_cp U (s ! (i + ?n))"
  proof
    assume a: "i + ?n < length s"
    then have "length ?w < length (drop (Suc i) s)" by simp
    then have "\<not> isword_cp U (drop (Suc i) s ! length ?w)" by (rule nth_length_takeWhile)
    moreover have "drop (Suc i) s ! length ?w = s ! (i + ?n)"
      using a by simp
    ultimately show "\<not> isword_cp U (s ! (i + ?n))" by simp
  qed
  from 1 2 3 4 5 show ?thesis by blast
qed

text \<open>
  C9, as amended. For every caption, \<open>extract_hashtags_as_codes\<close> returns the maximal
  \<open>#token\<close> substrings of the caption, in order of occurrence, joined by single spaces;
  a token that occurs twice is returned twice.
\<close>

theorem extract_hashtags_as_codes_maximal_tokens:
  "extract_hashtags_as_codes U s = join [32] (maximal_tokens U s)"
  by (simp add: extract_hashtags_as_codes_def findall_hashtags_maximal maximal_tokens_Nil)

text \<open>
  C9, as stated, fails: the caption \<open>#A1 #A1\<close> yields the code \<open>#A1\<close> twice, so the
  codes of a caption are not a set.
\<close>

theorem extract_hashtags_as_codes_keeps_duplicates:
  "extract_hashtags_as_codes ascii_only (lit ''#A1 #A1'') = lit ''#A1 #A1''
   \<and> \<not> distinct (split_ws ascii_only (extract_hashtags_as_codes ascii_only (lit ''#A1 #A1'')))"
  by (simp add: text_simps extract_hashtags_as_codes_def)

section \<open>Saving the same post twice\<close>

text \<open>
  C2, evaluated on the code. The post \<open>(-100, 7)\<close> is saved with the caption
  \<open>Big Movie #A12\<close> and saved again with the caption \<open>Other #B2\<close>: the videos table then
  holds two rows for \<open>(-100, 7)\<close>, the older one still carrying \<open>#A12\<close>, and a search for
  \<open>#A12\<close> still finds it.
\<close>

theorem save_video_twice_two_rows:
  "(let (ok1, d1) = save_video ascii_only (- 100) 7 (lit ''f1'') (lit ''Big Movie #A12'') 1 empty_db;
        (ok2, d2) = save_video ascii_only (- 100) 7 (lit ''f1'') (lit ''Other #B2'') 2 d1
    in (ok1, ok2, map (\<lambda>r. (v_chat_id r, v_message_id r, v_codes r)) (videos d2),
        map v_id (fst (search_channel_by_hashtag (lit ''#A12'') d2))))
   = (True, True, [(- 100, 7, lit ''#A12''), (- 100, 7, lit ''#B2'')], [1])"
  by (simp add: text_simps db_simps)

section \<open>Indexing the same code twice\<close>

text \<open>
  C3, evaluated on the code. Two channel posts whose captions carry \<open>#A12\<close> are indexed
  one after the other: the pending table then holds two rows for the code \<open>A12\<close>, and
  \<open>get_pending_movie_by_code\<close> returns the older one (message 7).
\<close>

theorem channel_post_handler_twice_two_pending:
  "(let (r1, h1) = channel_post_handler ascii_only 1 (\<lambda>k. 1) post_a12 (new_handlers empty_db);
        (r2, h2) = channel_post_handler ascii_only 2 (\<lambda>k. 2) post_a12_again h1
    in (map (\<lambda>r. (p_code r, p_channel_message_id r)) (pending (db h2)),
        map_option p_channel_message_id (fst (get_pending_movie_by_code (lit ''A12'') (db h2)))))
   = ([(lit ''A12'', 7), (lit ''A12'', 8)], Some 7)"
  by (simp add: text_simps db_simps channel_post_handler_def new_handlers_def
      post_a12_def post_a12_again_def Let_def)

section \<open>The outcome of a transaction\<close>

lemma begin_call_eq:
  "begin_call c d =
     (\<not> fault_at 0 (faults d), d\<lparr>calls := calls d @ [c], faults := tl (faults d)\<rparr>)"
  by (cases "faults d") (auto simp: begin_call_def fault_at_def)

lemma fault_at_tl: "fault_at n (tl fs) = fault_at (Suc n) fs"
  by (cases fs) (auto simp: fault_at_def)

lemma fault_at_Nil: "\<not> fault_at n []"
  by (simp add: fault_at_def)

lemma begin_call_frame:
  "begin_call c d = (ok, d1) \<Longrightarrow>
     videos d1 = videos d \<and> movies d1 = movies d \<and> pending d1 = pending d
     \<and> calls d1 = calls d @ [c] \<and> videos_seq d1 = videos_seq d \<and> movies_seq d1 = movies_seq d
     \<and> pending_seq d1 = pending_seq d"
  by (auto simp: begin_call_def split: list.splits)

section \<open>Texts of buttons\<close>

lemmas button_defs = btn_browse_def btn_search_def btn_help_def btn_about_def btn_main_menu_def
  btn_new_category_def btn_back_to_genres_def btn_previous_page_def btn_next_page_def
  folder_def magnifier_def books_def information_def house_def left_arrow_def right_arrow_def
  clapper_def plus_sign_def lit_def

lemma strip_nonempty: "strip U s \<noteq> [] \<Longrightarrow> s \<noteq> []"
  by (auto simp: strip_def)

lemma space_not_digit: "\<not> isdigit_cp U 32"
  by (simp add: isdigit_cp_def)

lemma next_button_not_numeric: "\<not> isdigit U btn_next_page"
  by (simp add: isdigit_def button_defs space_not_digit)

lemma previous_button_not_numeric: "\<not> isdigit U btn_previous_page"
  by (simp add: isdigit_def button_defs space_not_digit)

text \<open>A text of digits starts with none of the pictographs of the keyboard.\<close>

lemma digits_start_no_button:
  assumes "isdigit U t"
  shows "\<not> startswith_any t button_marks"
proof -
  from assms(1) obtain c cs where t: "t = c # cs" and c: "isdigit_cp U c"
    by (cases t) (auto simp: isdigit_def)
  from c have "c \<noteq> 128193" "c \<noteq> 128269" "c \<noteq> 128218" "c \<noteq> 8505" "c \<noteq> 127968"
    "c \<noteq> 11013" "c \<noteq> 127916"
    by (auto simp: isdigit_cp_def keyboard_pictograph_def)
  then show ?thesis
    by (simp add: t startswith_any_def button_marks_def folder_def magnifier_def books_def
        information_def house_def left_arrow_def clapper_def)
qed

section \<open>Which branch of handle_message a text takes\<close>

lemma handle_message_next:
  assumes "strip U msg = btn_next_page"
  shows "handle_message U u msg h = next_page u h"
proof -
  have ne: "msg \<noteq> []" using assms strip_nonempty[of U msg] by (auto simp: button_defs)
  have a: "btn_next_page \<noteq> btn_browse" "btn_next_page \<noteq> btn_search" "btn_next_page \<noteq> btn_help"
    "btn_next_page \<noteq> btn_about" "btn_next_page \<noteq> btn_main_menu"
    "btn_next_page \<noteq> btn_new_category" "btn_next_page \<noteq> btn_back_to_genres"
    "btn_next_page \<noteq> btn_previous_page"
    "\<not> startswith btn_next_page (folder @ lit '' '')"
    "\<not> startswith btn_next_page (clapper @ lit '' '')"
    by (simp_all add: button_defs)
  show ?thesis
    unfolding handle_message_def using ne
    by (simp add: assms a next_button_not_numeric Let_def)
qed

lemma handle_message_previous:
  assumes "strip U msg = btn_previous_page"
  shows "handle_message U u msg h = previous_page u h"
proof -
  have ne: "msg \<noteq> []" using assms strip_nonempty[of U msg] by (auto simp: button_defs)
  have a: "btn_previous_page \<noteq> btn_browse" "btn_previous_page \<noteq> btn_search"
    "btn_previous_page \<noteq> btn_help" "btn_previous_page \<noteq> btn_about"
    "btn_previous_page \<noteq> btn_main_menu" "btn_previous_page \<noteq> btn_new_category"
    "btn_previous_page \<noteq> btn_back_to_genres"
    "\<not> startswith btn_previous_page (folder @ lit '' '')"
    "\<not> startswith btn_previous_page (clapper @ lit '' '')"
    by (simp_all add: button_defs)
  show ?thesis
    unfolding handle_message_def using ne
    by (simp add: assms a previous_button_not_numeric Let_def)
qed

text \<open>
  A user who is adding a movie and is not at the category step: every text but a numeric
  code, a fixed button and a movie button reaches the dialogue.
\<close>

lemma handle_message_falls_through:
  assumes md: "pending_movies h u = Some md" and st: "md_step md \<noteq> Category"
    and nn: "\<not> numeric_code U (strip U msg)"
    and nb: "strip U msg \<notin> set fixed_buttons"
    and nm: "\<not> movie_button (strip U msg)"
  shows "handle_message U u msg h = movie_addition U u msg h"
proof (cases "msg = []")
  case True
  then show ?thesis by (simp add: handle_message_def)
next
  case False
  from nb have b: "strip U msg \<noteq> btn_browse" "strip U msg \<noteq> btn_search"
    "strip U msg \<noteq> btn_help" "strip U msg \<noteq> btn_about" "strip U msg \<noteq> btn_main_menu"
    "strip U msg \<noteq> btn_back_to_genres" "strip U msg \<noteq> btn_previous_page"
    "strip U msg \<noteq> btn_next_page"
    by (auto simp: fixed_buttons_def)
  from nn have n: "\<not> (length (strip U msg) \<le> 10 \<and> isdigit U (strip U msg))"
    by (simp add: numeric_code_def)
  from nm have m: "startswith (strip U msg) (clapper @ lit '' '') \<Longrightarrow>
      \<not> (contains (strip U msg) (lit ''('') \<and> contains (strip U msg) (lit '')''))"
    by (simp add: movie_button_def)
  show ?thesis
    unfolding handle_message_def using False md st n b m
    by (auto simp: Let_def)
qed

section \<open>The last page and the first page\<close>

lemma get_movies_by_category_frame:
  assumes "get_movies_by_category g p n d = (Inr (ms, tc), d1)"
  shows "videos d1 = videos d \<and> movies d1 = movies d \<and> pending d1 = pending d
         \<and> calls d1 = calls d @ [GetMoviesByCategory g] \<and> tc \<le> count_in_category g d"
  using assms begin_call_frame[of "GetMoviesByCategory g" d]
  by (auto simp: get_movies_by_category_def count_in_category_def Let_def
      split: prod.splits if_splits)

text \<open>The first page of 8 rows always fits: \<open>next_page\<close> gets its count.\<close>

lemma get_movies_by_category_first_page:
  "\<exists>ms tc d1. get_movies_by_category g 1 8 d = (Inr (ms, tc), d1)"
  by (cases "begin_call (GetMoviesByCategory g) d")
     (simp add: get_movies_by_category_def fits_int64_def Let_def)

text \<open>The number of pages that \<open>next_page\<close> computes is the last page.\<close>

lemma last_page_formula: "is_last_page n p \<Longrightarrow> (int n + 8 - 1) div 8 = p"
  unfolding is_last_page_def by presburger

section \<open>The commit of a movie\<close>

lemma one_insert_or_replace_movie:
  "m_code r = code \<Longrightarrow>
   filter (\<lambda>x. m_code x = code) (insert_or_replace movies_conflict r rows) = [r]"
  by (induction rows) (auto simp: insert_or_replace_def movies_conflict_def)

section \<open>Numeric texts\<close>

lemma handle_message_numeric:
  assumes "isdigit U (strip U msg)" and "length (strip U msg) \<le> 10"
  shows "handle_message U user_id msg h =
           ([SearchResults (fst (search_and_send_results U (strip U msg) (db h)))],
            h\<lparr>db := snd (search_and_send_results U (strip U msg) (db h))\<rparr>)"
proof -
  have ne: "msg \<noteq> []" using assms(1) strip_nonempty[of U msg] by (auto simp: isdigit_def)
  have nb: "\<not> startswith_any (strip U msg) button_marks"
    using digits_start_no_button[OF assms(1)] .
  show ?thesis
    unfolding handle_message_def using ne nb assms(1,2)
    by (simp add: Let_def split: prod.splits)
qed

lemma search_123: "fst (search_and_send_results ascii_only (lit ''123'') db_a12) = []"
  by (simp add: text_simps db_simps example_defs search_and_send_results_def exact_lookup_def
      prefix_fallback_def prefixes_def Let_def)

text \<open>
  C10. For every user and every state of the dialogue, a text message whose stripped text
  is all digits and at most 10 characters long is handled as a code search: the reply
  is what \<open>_search_and_send_results\<close> finds for the stripped text, and the entry of
  the user in \<open>self.pending_movies\<close> (step and title) and the browsing states are left
  as they were.
\<close>

theorem numeric_text_is_code_search:
  assumes "isdigit U (strip U msg)" and "length (strip U msg) \<le> 10"
  shows "fst (handle_message U user_id msg h)
           = [SearchResults (fst (search_and_send_results U (strip U msg) (db h)))]
       \<and> db (snd (handle_message U user_id msg h))
           = snd (search_and_send_results U (strip U msg) (db h))
       \<and> pending_movies (snd (handle_message U user_id msg h)) = pending_movies h
       \<and> user_states (snd (handle_message U user_id msg h)) = user_states h"
  by (simp add: handle_message_numeric[OF assms])

text \<open>
  The text \<open>007\<close> with spaces around it, sent by a user who is at the category step.
\<close>

theorem numeric_text_is_code_search_witness:
  "isdigit ascii_only (strip ascii_only (lit '' 007 ''))
   \<and> fst (handle_message ascii_only 1 (lit '' 007 '') h_category)
       = [SearchResults (fst (search_and_send_results ascii_only (lit ''007'') db_a12))]
   \<and> pending_movies (snd (handle_message ascii_only 1 (lit '' 007 '') h_category)) 1
       = Some (data_a12 Category (Some (lit ''Big Movie'')))"
proof -
  have s: "strip ascii_only (lit '' 007 '') = lit ''007''"
    by (simp add: text_simps)
  have a: "isdigit ascii_only (strip ascii_only (lit '' 007 ''))"
    "length (strip ascii_only (lit '' 007 '')) \<le> 10"
    unfolding s by (simp_all add: text_simps)
  from numeric_text_is_code_search[OF a, of 1 h_category] a(1) s
  show ?thesis by (simp add: h_category_def)
qed

section \<open>The title step\<close>

text \<open>
  C7, as amended. At the title step, the text of the message with the whitespace around
  it stripped is stored as the title and the dialogue moves to the category step,
  provided the stripped text is not empty and is not answered earlier in
  \<open>handle_message\<close>: it is not a numeric code (all digits, at most 10 characters), not
  one of the fixed buttons of the keyboard, and not the text of a movie button.
\<close>

theorem title_step:
  assumes "pending_movies h u = Some md" and "md_step md = Title"
    and "strip U msg \<noteq> []"
    and "\<not> numeric_code U (strip U msg)"
    and "strip U msg \<notin> set fixed_buttons"
    and "\<not> movie_button (strip U msg)"
  shows "handle_message U u msg h =
           ([TitleSaved (strip U msg)],
            h\<lparr>pending_movies := (pending_movies h)(u \<mapsto>
                 md\<lparr>md_title := Some (strip U msg), md_step := Category\<rparr>)\<rparr>)"
proof -
  have "handle_message U u msg h = movie_addition U u msg h"
    using assms by (intro handle_message_falls_through) auto
  then show ?thesis using assms by (simp add: movie_addition_def Let_def)
qed

text \<open>The text \<open>Big Movie\<close> with spaces around it, at the title step.\<close>

theorem title_step_witness:
  "handle_message ascii_only 1 (lit '' Big Movie '') h_title
     = ([TitleSaved (lit ''Big Movie'')],
        h_title\<lparr>pending_movies := [1 \<mapsto> data_a12 Category (Some (lit ''Big Movie''))]\<rparr>)"
proof -
  have s: "strip ascii_only (lit '' Big Movie '') = lit ''Big Movie''"
    by (simp add: text_simps)
  have a: "pending_movies h_title 1 = Some (data_a12 Title None)"
    "md_step (data_a12 Title None) = Title"
    by (simp_all add: h_title_def data_a12_def)
  have b: "strip ascii_only (lit '' Big Movie '') \<noteq> []"
    "\<not> numeric_code ascii_only (strip ascii_only (lit '' Big Movie ''))"
    "strip ascii_only (lit '' Big Movie '') \<notin> set fixed_buttons"
    "\<not> movie_button (strip ascii_only (lit '' Big Movie ''))"
    unfolding s
    by (simp_all add: numeric_code_def fixed_buttons_def movie_button_def button_defs text_simps)
  from title_step[OF a b] show ?thesis
    by (simp add: s h_title_def data_a12_def)
qed

text \<open>
  C7, as stated, fails: at the title step the non-empty text \<open>123\<close> is searched as a
  code; no title is stored and the dialogue stays at the title step.
\<close>

theorem title_step_numeric_text_not_a_title:
  "strip ascii_only (lit ''123'') \<noteq> []
   \<and> pending_movies h_title 1 = Some (data_a12 Title None)
   \<and> fst (handle_message ascii_only 1 (lit ''123'') h_title) = [SearchResults []]
   \<and> pending_movies (snd (handle_message ascii_only 1 (lit ''123'') h_title)) 1
       = Some (data_a12 Title None)"
proof -
  have s: "strip ascii_only (lit ''123'') = lit ''123''"
    by (simp add: text_simps)
  have a: "isdigit ascii_only (strip ascii_only (lit ''123''))"
    "length (strip ascii_only (lit ''123'')) \<le> 10"
    unfolding s by (simp_all add: text_simps)
  have d: "db h_title = db_a12" by (simp add: h_title_def)
  show ?thesis
    unfolding handle_message_numeric[OF a]
    by (simp add: s d search_123) (simp add: h_title_def lit_def)
qed

section \<open>Next at the last page, previous at the first\<close>

text \<open>
  C8, as amended. A user has a browsing state. When the stripped text is the button for
  the next page and the state is at the last page of its genre (page
  \<open>ceil(total / 8)\<close>), the request is refused: the browsing states, the dialogues and
  the movies are left as they were, and the reply is that this is already the last page
  when the genre of the state is not the empty text, and that no genre is selected when
  it is. When the stripped text is the button for the previous page and the state is at
  page 1, the request is refused with the reply that this is already the first page, and
  nothing changes.
\<close>

theorem page_edges_rejected:
  assumes "user_states h u = Some st"
  shows "(strip U msg = btn_next_page \<and> is_last_page (count_in_category (genre st) (db h)) (page st)
            \<longrightarrow> fst (handle_message U u msg h)
                   = [if genre st = [] then NoGenreSelected else AlreadyLastPage]
              \<and> user_states (snd (handle_message U u msg h)) = user_states h
              \<and> pending_movies (snd (handle_message U u msg h)) = pending_movies h
              \<and> movies (db (snd (handle_message U u msg h))) = movies (db h))
       \<and> (strip U msg = btn_previous_page \<and> page st = 1
            \<longrightarrow> handle_message U u msg h = ([AlreadyFirstPage], h))"
proof (intro conjI impI)
  assume a: "strip U msg = btn_previous_page \<and> page st = 1"
  then show "handle_message U u msg h = ([AlreadyFirstPage], h)"
    using assms by (simp add: handle_message_previous previous_page_def)
next
  assume a: "strip U msg = btn_next_page \<and> is_last_page (count_in_category (genre st) (db h)) (page st)"
  then have hm: "handle_message U u msg h = next_page u h"
    by (simp add: handle_message_next)
  obtain ms tc d1 where g: "get_movies_by_category (genre st) 1 8 (db h) = (Inr (ms, tc), d1)"
    using get_movies_by_category_first_page by blast
  from get_movies_by_category_frame[OF g]
  have fr: "movies d1 = movies (db h)" and le: "tc \<le> count_in_category (genre st) (db h)"
    by auto
  from a have "int (count_in_category (genre st) (db h)) \<le> 8 * page st"
    by (simp add: is_last_page_def)
  with le have nolt: "\<not> page st < (int tc + 8 - 1) div 8" by linarith
  have np: "next_page u h = (if genre st = [] then ([NoGenreSelected], h)
                             else ([AlreadyLastPage], h\<lparr>db := d1\<rparr>))"
    using assms g nolt by (simp add: next_page_def Let_def)
  show "fst (handle_message U u msg h) = [if genre st = [] then NoGenreSelected else AlreadyLastPage]"
    by (simp add: hm np)
  show "user_states (snd (handle_message U u msg h)) = user_states h"
    by (simp add: hm np)
  show "pending_movies (snd (handle_message U u msg h)) = pending_movies h"
    by (simp add: hm np)
  show "movies (db (snd (handle_message U u msg h))) = movies (db h)"
    by (simp add: hm np fr)
qed

lemma strip_next: "strip ascii_only btn_next_page = btn_next_page"
  by (simp add: text_simps button_defs)

lemma strip_previous: "strip ascii_only btn_previous_page = btn_previous_page"
  by (simp add: text_simps button_defs)

lemma count_drama: "count_in_category (lit ''Drama'') (db h_drama) = 10"
  by (simp add: count_in_category_def h_drama_def drama_def empty_db_def lit_def upt_conv_Cons)

text \<open>
  Ten movies of the genre \<open>Drama\<close>: user 1 is at page 2, the last one, and asks for the
  next page; user 2 is at page 1 and asks for the previous page.
\<close>

theorem page_edges_rejected_witness:
  "is_last_page (count_in_category (lit ''Drama'') (db h_drama)) 2
   \<and> fst (handle_message ascii_only 1 btn_next_page h_drama) = [AlreadyLastPage]
   \<and> user_states (snd (handle_message ascii_only 1 btn_next_page h_drama)) 1
       = Some \<lparr>genre = lit ''Drama'', page = 2\<rparr>
   \<and> handle_message ascii_only 2 btn_previous_page h_drama = ([AlreadyFirstPage], h_drama)"
proof -
  have u1: "user_states h_drama 1 = Some \<lparr>genre = lit ''Drama'', page = 2\<rparr>"
    and u2: "user_states h_drama 2 = Some \<lparr>genre = lit ''Drama'', page = 1\<rparr>"
    by (simp_all add: h_drama_def)
  have l: "is_last_page (count_in_category (lit ''Drama'') (db h_drama)) 2"
    by (simp add: count_drama is_last_page_def)
  have g: "lit ''Drama'' \<noteq> []" by (simp add: lit_def)
  from page_edges_rejected[OF u1, of ascii_only btn_next_page]
    page_edges_rejected[OF u2, of ascii_only btn_previous_page] l g u1
  show ?thesis by (simp add: strip_next strip_previous)
qed

text \<open>
  C8, as stated, fails on the report: a user browsing the empty genre at page 1, the last
  page of the one movie whose category is the empty text, asks for the next page and is
  told that no genre is selected, not that this is the last page.
\<close>

theorem empty_genre_not_last_page_report:
  "user_states h_empty_genre 1 = Some \<lparr>genre = [], page = 1\<rparr>
   \<and> is_last_page (count_in_category [] (db h_empty_genre)) 1
   \<and> handle_message ascii_only 1 btn_next_page h_empty_genre = ([NoGenreSelected], h_empty_genre)"
proof -
  have u: "user_states h_empty_genre 1 = Some \<lparr>genre = [], page = 1\<rparr>"
    by (simp add: h_empty_genre_def)
  have l: "is_last_page (count_in_category [] (db h_empty_genre)) 1"
    by (simp add: is_last_page_def count_in_category_def h_empty_genre_def movie_no_category_def
        empty_db_def)
  have n: "handle_message ascii_only 1 btn_next_page h_empty_genre = next_page 1 h_empty_genre"
    by (simp add: handle_message_next strip_next)
  show ?thesis using u l by (simp add: n next_page_def Let_def)
qed

section \<open>Promoting a pending movie\<close>

text \<open>
  The two places of \<open>handle_message\<close> that commit: a new category typed in at the step
  \<open>new_category\<close>, and a category chosen by button at the step \<open>category\<close>.
\<close>

lemma handle_message_new_category_commit:
  assumes "pending_movies h u = Some md" and "md_step md = NewCategory"
    and "md_title md = Some title" and "strip U msg \<noteq> []"
    and "\<not> numeric_code U (strip U msg)"
    and "strip U msg \<notin> set fixed_buttons"
    and "\<not> movie_button (strip U msg)"
  shows "handle_message U u msg h = commit_movie u title (strip U msg) (md_code md) h"
proof -
  have "handle_message U u msg h = movie_addition U u msg h"
    using assms by (intro handle_message_falls_through) auto
  then show ?thesis using assms by (simp add: movie_addition_def Let_def)
qed

lemma handle_message_category_commit:
  assumes md: "pending_movies h u = Some md" and "md_step md = Category"
    and "md_title md = Some title"
    and sw: "startswith (strip U msg) (folder @ lit '' '')"
    and nb: "strip U msg \<noteq> btn_browse"
  shows "handle_message U u msg h =
           commit_movie u title (replace (strip U msg) (folder @ lit '' '') []) (md_code md) h"
proof -
  from sw obtain rest where t: "strip U msg = 128193 # 32 # rest"
    by (cases "strip U msg"; cases "tl (strip U msg)") (auto simp: folder_def lit_def)
  have ne: "msg \<noteq> []" using t strip_nonempty[of U msg] by auto
  have marks: "startswith_any (strip U msg) button_marks"
    by (simp add: t startswith_any_def button_marks_def folder_def)
  have b: "strip U msg \<noteq> btn_search" "strip U msg \<noteq> btn_help" "strip U msg \<noteq> btn_about"
    "strip U msg \<noteq> btn_main_menu"
    by (simp_all add: t button_defs)
  show ?thesis
    unfolding handle_message_def using ne marks nb b assms
    by (simp add: Let_def)
qed

text \<open>
  C1. The commit reads the pending movie again by its code, before anything else. When
  the read gives nothing, the reply is that the data of the pending movie are missing,
  no other call is made, and the movies, the pending movies and the dialogues are as
  before. When the pending movie is there and the write of the movie fails (the second
  transaction), the reply is the failure, no removal is asked for, and the movies, the
  pending movies and the dialogues are as before. When the write succeeds, the movie
  with the title, the category and the fields of the pending movie is the one row of its
  code, the removal of the pending movie is asked for after the write (and, unless that
  transaction fails too, no pending movie of the code is left), and the dialogue of the
  user is cleared.
\<close>

theorem commit_movie_promotion:
  fixes h :: handlers and code title category :: pystr and u :: int
  defines "draft \<equiv> fst (get_pending_movie_by_code code (db h))"
    and "out \<equiv> commit_movie u title category code h"
  defines "new_calls \<equiv> drop (length (calls (db h))) (calls (db (snd out)))"
  shows
    "(draft = None \<longrightarrow>
        fst out = [PendingDataMissing] \<and> new_calls = [GetPendingMovieByCode code]
        \<and> movies (db (snd out)) = movies (db h) \<and> pending (db (snd out)) = pending (db h)
        \<and> pending_movies (snd out) = pending_movies h)
     \<and> (draft \<noteq> None \<and> nth_fault 1 (db h) \<longrightarrow>
        fst out = [AddMovieFailed title code]
        \<and> new_calls = [GetPendingMovieByCode code, AddMovie code]
        \<and> movies (db (snd out)) = movies (db h) \<and> pending (db (snd out)) = pending (db h)
        \<and> pending_movies (snd out) = pending_movies h)
     \<and> (\<forall>pm. draft = Some pm \<and> \<not> nth_fault 1 (db h) \<longrightarrow>
        fst out = [MovieAdded title category code]
        \<and> new_calls = [GetPendingMovieByCode code, AddMovie code, RemovePendingMovie code]
        \<and> filter (\<lambda>r. m_code r = code) (movies (db (snd out)))
            = [\<lparr>m_id = Suc (movies_seq (db h)), m_code = code, m_title = title,
                m_category = category, m_channel_message_id = p_channel_message_id pm,
                m_channel_id = p_channel_id pm, m_file_id = p_file_id pm\<rparr>]
        \<and> pending (db (snd out))
            = (if nth_fault 2 (db h) then pending (db h)
               else filter (\<lambda>r. p_code r \<noteq> code) (pending (db h)))
        \<and> pending_movies (snd out) = (pending_movies h)(u := None))"
  unfolding draft_def out_def new_calls_def
  by (auto simp: commit_movie_def get_pending_movie_by_code_def add_movie_def
      remove_pending_movie_def begin_call_eq Let_def one_insert_or_replace_movie
      nth_fault_def fault_at_tl numeral_2_eq_2
      split: option.splits)

text \<open>
  The commit of \<open>A12\<close> as \<open>Big Movie\<close> in \<open>Drama\<close>: with a database that works,
  with one whose write fails, and after the pending movie vanished.
\<close>

theorem commit_movie_promotion_witness:
  "fst (commit_movie 1 (lit ''Big Movie'') (lit ''Drama'') (lit ''A12'') h_category)
     = [MovieAdded (lit ''Big Movie'') (lit ''Drama'') (lit ''A12'')]
   \<and> pending (db (snd (commit_movie 1 (lit ''Big Movie'') (lit ''Drama'') (lit ''A12'') h_category)))
     = []
   \<and> pending_movies (snd (commit_movie 1 (lit ''Big Movie'') (lit ''Drama'') (lit ''A12'') h_category)) 1
     = None
   \<and> fst (commit_movie 1 (lit ''Big Movie'') (lit ''Drama'') (lit ''A12'') h_category_failing)
     = [AddMovieFailed (lit ''Big Movie'') (lit ''A12'')]
   \<and> pending (db (snd (commit_movie 1 (lit ''Big Movie'') (lit ''Drama'') (lit ''A12'') h_category_failing)))
     = [pending_a12]
   \<and> pending_movies (snd (commit_movie 1 (lit ''Big Movie'') (lit ''Drama'') (lit ''A12'') h_category_failing)) 1
     = Some (data_a12 Category (Some (lit ''Big Movie'')))
   \<and> fst (commit_movie 1 (lit ''Big Movie'') (lit ''Drama'') (lit ''A12'') h_category_vanished)
     = [PendingDataMissing]
   \<and> movies (db (snd (commit_movie 1 (lit ''Big Movie'') (lit ''Drama'') (lit ''A12'') h_category_vanished)))
     = []"
proof -
  let ?c = "commit_movie 1 (lit ''Big Movie'') (lit ''Drama'') (lit ''A12'')"
  have s: "fst (get_pending_movie_by_code (lit ''A12'') (db h_category)) = Some pending_a12"
    "\<not> nth_fault 1 (db h_category)" "\<not> nth_fault 2 (db h_category)"
    by (simp_all add: get_pending_movie_by_code_def begin_call_def h_category_def db_a12_def
        pending_a12_def nth_fault_def fault_at_def)
  have f: "fst (get_pending_movie_by_code (lit ''A12'') (db h_category_failing)) \<noteq> None"
    "nth_fault 1 (db h_category_failing)"
    by (simp_all add: get_pending_movie_by_code_def begin_call_def h_category_failing_def
        h_category_def db_a12_def pending_a12_def nth_fault_def fault_at_def)
  have v: "fst (get_pending_movie_by_code (lit ''A12'') (db h_category_vanished)) = None"
    by (simp add: get_pending_movie_by_code_def begin_call_def h_category_vanished_def
        h_category_def db_a12_def)
  note t = commit_movie_promotion[where u = 1 and title = "lit ''Big Movie''"
      and category = "lit ''Drama''" and code = "lit ''A12''"]
  from t[where h = h_category] s
  have 1: "fst (?c h_category) = [MovieAdded (lit ''Big Movie'') (lit ''Drama'') (lit ''A12'')]
     \<and> pending (db (snd (?c h_category)))
         = filter (\<lambda>r. p_code r \<noteq> lit ''A12'') (pending (db h_category))
     \<and> pending_movies (snd (?c h_category)) = (pending_movies h_category)(1 := None)"
    by simp
  from t[where h = h_category_failing] f
  have 2: "fst (?c h_category_failing) = [AddMovieFailed (lit ''Big Movie'') (lit ''A12'')]
     \<and> pending (db (snd (?c h_category_failing))) = pending (db h_category_failing)
     \<and> pending_movies (snd (?c h_category_failing)) = pending_movies h_category_failing"
    by simp
  from t[where h = h_category_vanished] v
  have 3: "fst (?c h_category_vanished) = [PendingDataMissing]
     \<and> movies (db (snd (?c h_category_vanished))) = movies (db h_category_vanished)"
    by simp
  have e: "filter (\<lambda>r. p_code r \<noteq> lit ''A12'') (pending (db h_category)) = []"
    "pending (db h_category_failing) = [pending_a12]"
    "pending_movies h_category_failing 1 = Some (data_a12 Category (Some (lit ''Big Movie'')))"
    "movies (db h_category_vanished) = []"
    by (simp_all add: h_category_def h_category_failing_def h_category_vanished_def db_a12_def
        pending_a12_def)
  from 1 2 3 e show ?thesis by simp
qed

section \<open>LIKE and ORDER BY\<close>

text \<open>A text that holds \<open>p\<close> matches the pattern \<open>%p%\<close>.\<close>

lemma like_percent: "like [37] s"
  by (induction s) auto

lemma like_skip: "like q s \<Longrightarrow> like (37 # q) s"
  by (cases s) auto

lemma startswith_like: "startswith s p \<Longrightarrow> like (p @ [37]) s"
proof (induction s p rule: startswith.induct)
  case (1 s)
  then show ?case by (simp add: like_percent)
next
  case (2 p ps)
  then show ?case by simp
next
  case (3 c cs p ps)
  then have "like (ps @ [37]) cs" by simp
  with 3 show ?case by (auto simp: like_skip)
qed

lemma contains_like: "contains s p \<Longrightarrow> like (37 # p @ [37]) s"
proof (induction s)
  case Nil
  then show ?case by simp
next
  case (Cons c cs)
  then show ?case
    using startswith_like[of "c # cs" p] by auto
qed

text \<open>Ordering by falling date sorts the rows, keeps them all, and commutes with a filter.\<close>

lemma set_insert_desc: "set (insert_desc k r xs) = insert r (set xs)"
  by (induction xs) auto

lemma desc_insert_desc: "desc k xs \<Longrightarrow> desc k (insert_desc k r xs)"
  by (induction xs) (auto simp: set_insert_desc desc_def)

lemma filter_insert_desc:
  "desc k xs \<Longrightarrow>
   filter P (insert_desc k r xs) = (if P r then insert_desc k r (filter P xs) else filter P xs)"
proof (induction xs)
  case Nil
  then show ?case by simp
next
  case (Cons x xs)
  show ?case
  proof (cases "k x < k r")
    case True
    have "filter P xs = [] \<or> (\<exists>y ys. filter P xs = y # ys \<and> k y < k r)"
    proof (cases "filter P xs")
      case Nil
      then show ?thesis by simp
    next
      case (Cons y ys)
      then have "y \<in> set (filter P xs)" by simp
      then have "y \<in> set xs" by simp
      with Cons.prems have "k y \<le> k x" by (auto simp: desc_def)
      with True Cons show ?thesis by auto
    qed
    with True show ?thesis by auto
  next
    case False
    with Cons show ?thesis by (auto simp: desc_def)
  qed
qed

lemma foldl_insert_desc:
  "desc k acc \<Longrightarrow>
   desc k (foldl (\<lambda>a r. insert_desc k r a) acc xs)
   \<and> set (foldl (\<lambda>a r. insert_desc k r a) acc xs) = set acc \<union> set xs
   \<and> filter P (foldl (\<lambda>a r. insert_desc k r a) acc xs)
       = foldl (\<lambda>a r. insert_desc k r a) (filter P acc) (filter P xs)"
proof (induction xs arbitrary: acc)
  case Nil
  then show ?case by simp
next
  case (Cons x xs)
  from Cons.prems have d: "desc k (insert_desc k x acc)" by (rule desc_insert_desc)
  from Cons.IH[OF d] Cons.prems show ?case
    by (auto simp: set_insert_desc filter_insert_desc)
qed

lemma desc_Nil: "desc k []"
  by (simp add: desc_def)

lemma desc_order_by_desc: "desc k (order_by_desc k xs)"
  using foldl_insert_desc[OF desc_Nil, where k = k and xs = xs]
  by (simp add: order_by_desc_def)

lemma set_order_by_desc: "set (order_by_desc k xs) = set xs"
  using foldl_insert_desc[OF desc_Nil, where k = k and xs = xs]
  by (simp add: order_by_desc_def)

lemma filter_order_by_desc: "filter P (order_by_desc k xs) = order_by_desc k (filter P xs)"
  using foldl_insert_desc[OF desc_Nil, where k = k and P = P and xs = xs]
  by (simp add: order_by_desc_def)

lemma find_filter: "find Q (filter P xs) = find (\<lambda>x. P x \<and> Q x) xs"
  by (induction xs) auto

text \<open>The rows of the channel search, searched for the tag itself, give the raw item.\<close>

lemma find_channel_rows:
  "find (\<lambda>r. v_codes r \<noteq> [] \<and> contains (v_codes r) (35 # c))
     (order_by_desc v_date (filter (\<lambda>r. like (37 # (35 # c) @ [37]) (v_codes r)) (videos d)))
   = raw_match d c"
proof -
  have "find (\<lambda>r. like (37 # (35 # c) @ [37]) (v_codes r)
                   \<and> v_codes r \<noteq> [] \<and> contains (v_codes r) (35 # c)) xs
        = find (\<lambda>r. contains (v_codes r) (35 # c)) xs" for xs
    using contains_like[of _ "35 # c"] by (intro find_cong) auto
  then show ?thesis
    by (simp add: raw_match_def newest_first_def filter_order_by_desc[symmetric] find_filter
        del: append.simps)
qed

section \<open>The lookups when no transaction fails\<close>

lemma logged_simps [simp]:
  "faults (logged d cs) = faults d" "videos (logged d cs) = videos d"
  "movies (logged d cs) = movies d" "pending (logged d cs) = pending d"
  "calls (logged d cs) = calls d @ cs"
  "movie_of (logged d cs) = movie_of d" "raw_match (logged d cs) = raw_match d"
  "logged (logged d cs) cs' = logged d (cs @ cs')"
  by (simp_all add: logged_def movie_of_def raw_match_def newest_first_def fun_eq_iff)

lemma logged_Nil [simp]: "logged d [] = d"
  by (simp add: logged_def)

lemma begin_call_pure: "faults d = [] \<Longrightarrow> begin_call c d = (True, logged d [c])"
  by (simp add: begin_call_def logged_def)

lemma get_movie_by_code_pure:
  "faults d = [] \<Longrightarrow> get_movie_by_code c d = (movie_of d c, logged d [GetMovieByCode c])"
  by (simp add: get_movie_by_code_def begin_call_pure movie_of_def)

lemma channel_rows_logged [simp]: "channel_rows (logged d cs) = channel_rows d"
  by (simp add: channel_rows_def fun_eq_iff)

lemma search_channel_pure:
  "faults d = [] \<Longrightarrow>
   search_channel_by_hashtag t d = (channel_rows d t, logged d [SearchChannelByHashtag t])"
  by (simp add: search_channel_by_hashtag_def begin_call_pure channel_rows_def)

lemma find_channel_rows':
  "find (\<lambda>r. v_codes r \<noteq> [] \<and> contains (v_codes r) (35 # c)) (channel_rows d (35 # c))
     = raw_match d c"
  using find_channel_rows[of c d] by (simp add: channel_rows_def)

lemma first_with_code_find:
  "first_with_code rows t =
     (case find (\<lambda>r. v_codes r \<noteq> [] \<and> contains (v_codes r) t) rows of
        None \<Rightarrow> [] | Some r \<Rightarrow> [Video r])"
  by (induction rows) auto

lemma validate_channel_code_pure:
  assumes "faults d = []" and "r \<in> set (channel_rows d (35 # code))"
  shows "validate_channel_code r code d = (True, logged d [SearchChannelByHashtag (35 # code)])"
proof -
  from assms(2) have ne: "channel_rows d (35 # code) \<noteq> []" by auto
  from assms(2) have ex: "list_ex (\<lambda>cur. v_chat_id cur = v_chat_id r \<and> v_message_id cur = v_message_id r)
      (channel_rows d (35 # code))"
    by (auto simp: list_ex_iff)
  show ?thesis
    using assms(1) ne ex by (simp add: validate_channel_code_def search_channel_pure)
qed

lemma scan_channel_results_pure:
  assumes "faults d = []" and "set rows \<subseteq> set (channel_rows d (35 # code))"
  shows "scan_channel_results rows code d =
     (case find (\<lambda>r. v_codes r \<noteq> [] \<and> contains (v_codes r) (35 # code)) rows of
        None \<Rightarrow> ([], d)
      | Some r \<Rightarrow> ([Video r], logged d [SearchChannelByHashtag (35 # code)]))"
  using assms
proof (induction rows)
  case Nil
  then show ?case by simp
next
  case (Cons r rows)
  then show ?case by (simp add: validate_channel_code_pure)
qed

lemma validate_movie_code_pure:
  "faults d = [] \<Longrightarrow> movie_of d code = Some m \<Longrightarrow>
   validate_movie_code m code d = (True, logged d [GetMovieByCode code])"
  by (simp add: validate_movie_code_def get_movie_by_code_pure)

lemma exact_lookup_pure:
  assumes "faults d = []"
  shows "exact_lookup code d =
     (case movie_of d code of
        Some m \<Rightarrow> ([Movie m], logged d [GetMovieByCode code, GetMovieByCode code])
      | None \<Rightarrow>
          (case raw_match d code of
             None \<Rightarrow> ([], logged d [GetMovieByCode code, SearchChannelByHashtag (35 # code)])
           | Some r \<Rightarrow>
               ([Video r], logged d [GetMovieByCode code, SearchChannelByHashtag (35 # code),
                                     SearchChannelByHashtag (35 # code)])))"
proof (cases "movie_of d code")
  case None
  have "scan_channel_results (channel_rows d (35 # code)) code
          (logged d [GetMovieByCode code, SearchChannelByHashtag (35 # code)])
        = (case raw_match d code of
             None \<Rightarrow> ([], logged d [GetMovieByCode code, SearchChannelByHashtag (35 # code)])
           | Some r \<Rightarrow>
               ([Video r], logged d [GetMovieByCode code, SearchChannelByHashtag (35 # code),
                                     SearchChannelByHashtag (35 # code)]))"
    using assms
    by (subst scan_channel_results_pure) (auto simp: find_channel_rows' split: option.splits)
  with None assms show ?thesis
    by (simp add: exact_lookup_def get_movie_by_code_pure search_channel_pure)
next
  case (Some m)
  with assms show ?thesis
    by (simp add: exact_lookup_def get_movie_by_code_pure validate_movie_code_pure)
qed


section \<open>The loops over the prefixes\<close>

lemma until_first_Nil [simp]: "until_first P [] = []"
  by (simp add: until_first_def)

lemma until_first_Cons [simp]:
  "until_first P (x # xs) = (if P x then [x] else x # until_first P xs)"
  by (simp add: until_first_def)

lemma take1_map_filter_Cons:
  "take (Suc 0) (List.map_filter f (x # xs)) =
     (case f x of Some y \<Rightarrow> [y] | None \<Rightarrow> take (Suc 0) (List.map_filter f xs))"
  by (simp add: List.map_filter_simps split: option.splits)

lemma prefix_movies_pure:
  "faults d = [] \<Longrightarrow>
   prefix_movies ps code d =
     (map Movie (first_movie d (map (\<lambda>p. p @ code) ps)),
      logged d (map GetMovieByCode
                  (until_first (\<lambda>c. movie_of d c \<noteq> None) (map (\<lambda>p. p @ code) ps))))"
proof (induction ps arbitrary: d)
  case Nil
  then show ?case by (simp add: first_movie_def List.map_filter_simps)
next
  case (Cons p ps)
  show ?case
  proof (cases "movie_of d (p @ code)")
    case None
    from Cons.prems have "faults (logged d [GetMovieByCode (p @ code)]) = []" by simp
    from Cons.IH[OF this] None Cons.prems show ?thesis
      by (simp add: get_movie_by_code_pure first_movie_def take1_map_filter_Cons)
  next
    case (Some m)
    with Cons.prems show ?thesis
      by (simp add: get_movie_by_code_pure first_movie_def take1_map_filter_Cons)
  qed
qed

lemma prefix_videos_pure:
  "faults d = [] \<Longrightarrow>
   prefix_videos ps code d =
     (map Video (first_video d (map (\<lambda>p. p @ code) ps)),
      logged d (map (\<lambda>c. SearchChannelByHashtag (35 # c))
                  (until_first (\<lambda>c. raw_match d c \<noteq> None) (map (\<lambda>p. p @ code) ps))))"
proof (induction ps arbitrary: d)
  case Nil
  then show ?case by (simp add: first_video_def List.map_filter_simps)
next
  case (Cons p ps)
  show ?case
  proof (cases "raw_match d (p @ code)")
    case None
    from Cons.prems have "faults (logged d [SearchChannelByHashtag (35 # p @ code)]) = []" by simp
    from Cons.IH[OF this] None Cons.prems show ?thesis
      by (simp add: search_channel_pure first_with_code_find find_channel_rows'
          first_video_def take1_map_filter_Cons)
  next
    case (Some r)
    with Cons.prems show ?thesis
      by (simp add: search_channel_pure first_with_code_find find_channel_rows'
          first_video_def take1_map_filter_Cons)
  qed
qed

lemma prefix_fallback_pure:
  assumes "faults d = []"
  shows "prefix_fallback code d =
     (if first_movie d (candidates code) \<noteq> [] then map Movie (first_movie d (candidates code))
      else map Video (first_video d (candidates code)),
      logged d (map GetMovieByCode (until_first (\<lambda>c. movie_of d c \<noteq> None) (candidates code))
                @ (if first_movie d (candidates code) = []
                   then map (\<lambda>c. SearchChannelByHashtag (35 # c))
                          (until_first (\<lambda>c. raw_match d c \<noteq> None) (candidates code))
                   else [])))"
  using assms
  by (simp add: prefix_fallback_def prefix_movies_pure prefix_videos_pure candidates_def
      first_movie_def first_video_def)


section \<open>The calls of a search\<close>

lemma get_movie_by_code_calls:
  "calls (snd (get_movie_by_code c d)) = calls d @ [GetMovieByCode c]"
  by (simp add: get_movie_by_code_def begin_call_eq)

lemma search_channel_calls:
  "calls (snd (search_channel_by_hashtag t d)) = calls d @ [SearchChannelByHashtag t]"
  by (simp add: search_channel_by_hashtag_def begin_call_eq)

lemma prefix_movies_calls:
  "\<exists>cs. calls (snd (prefix_movies ps code d)) = calls d @ cs \<and> (ps \<noteq> [] \<longrightarrow> cs \<noteq> [])"
proof (induction ps arbitrary: d)
  case Nil
  then show ?case by simp
next
  case (Cons p ps)
  obtain m d1 where g: "get_movie_by_code (p @ code) d = (m, d1)" by (metis prod.exhaust)
  then have c: "calls d1 = calls d @ [GetMovieByCode (p @ code)]"
    using get_movie_by_code_calls[of "p @ code" d] by simp
  from Cons.IH[of d1] obtain cs where "calls (snd (prefix_movies ps code d1)) = calls d1 @ cs"
    by blast
  with g c show ?case by (cases m) auto
qed

lemma prefix_videos_calls:
  "\<exists>cs. calls (snd (prefix_videos ps code d)) = calls d @ cs"
proof (induction ps arbitrary: d)
  case Nil
  then show ?case by simp
next
  case (Cons p ps)
  obtain rows d1 where g: "search_channel_by_hashtag (35 # p @ code) d = (rows, d1)"
    by (metis prod.exhaust)
  then have c: "calls d1 = calls d @ [SearchChannelByHashtag (35 # p @ code)]"
    using search_channel_calls[of "35 # p @ code" d] by simp
  from Cons.IH[of d1] obtain cs where "calls (snd (prefix_videos ps code d1)) = calls d1 @ cs"
    by blast
  with g c show ?case by (auto simp: Let_def)
qed

lemma prefix_fallback_calls:
  "\<exists>cs. calls (snd (prefix_fallback code d)) = calls d @ cs \<and> cs \<noteq> []"
proof -
  obtain res d1 where g: "prefix_movies prefixes code d = (res, d1)" by (metis prod.exhaust)
  have "prefixes \<noteq> []" by (simp add: prefixes_def)
  with prefix_movies_calls[of prefixes code d] g
  obtain cs where c: "calls d1 = calls d @ cs" "cs \<noteq> []" by auto
  from prefix_videos_calls[of prefixes code d1]
  obtain cs' where "calls (snd (prefix_videos prefixes code d1)) = calls d1 @ cs'" by blast
  with g c show ?thesis by (auto simp: prefix_fallback_def)
qed

lemma short_number_guard:
  "(isdigit U code \<and> length code \<le> 3 \<and> \<not> startswith code (lit ''0'')) = short_number U code"
  by (cases code) (auto simp: short_number_def isdigit_def)

lemma fallback_entered_iff:
  "fallback_calls U code d \<noteq> [] \<longleftrightarrow> fst (exact_lookup code d) = [] \<and> short_number U code"
proof -
  obtain res d1 where e: "exact_lookup code d = (res, d1)" by (metis prod.exhaust)
  from prefix_fallback_calls[of code d1]
  obtain cs where c: "calls (snd (prefix_fallback code d1)) = calls d1 @ cs" "cs \<noteq> []" by blast
  show ?thesis
    using e c by (simp add: fallback_calls_def search_and_send_results_def short_number_guard)
qed

lemma search_exact:
  "fst (exact_lookup code d) \<noteq> [] \<Longrightarrow> search_and_send_results U code d = exact_lookup code d"
  by (cases "exact_lookup code d") (simp add: search_and_send_results_def)

lemma search_fallback:
  "fst (exact_lookup code d) = [] \<Longrightarrow> short_number U code \<Longrightarrow>
   search_and_send_results U code d = prefix_fallback code (snd (exact_lookup code d))"
  by (cases "exact_lookup code d")
     (simp add: search_and_send_results_def short_number_guard)

lemma search_not_found:
  "fst (exact_lookup code d) = [] \<Longrightarrow> \<not> short_number U code \<Longrightarrow>
   search_and_send_results U code d = ([], snd (exact_lookup code d))"
  by (cases "exact_lookup code d")
     (simp add: search_and_send_results_def short_number_guard)

lemma exact_lookup_faults:
  "faults d = [] \<Longrightarrow> \<exists>cs. snd (exact_lookup code d) = logged d cs"
  by (auto simp: exact_lookup_pure split: option.splits)

lemma candidates_7: "candidates (lit ''7'') = seven_guesses"
  by (simp add: candidates_def prefixes_def seven_guesses_def lit_def)

lemma short_7: "short_number U (lit ''7'')"
  by (simp add: short_number_def text_simps)

lemma not_short_007: "\<not> short_number U (lit ''007'')"
  by (simp add: short_number_def text_simps)

text \<open>The search on a store that does not fail.\<close>

lemma search_catalog_pure:
  assumes "faults d = []" and "movie_of d code = Some m"
  shows "search_and_send_results U code d
           = ([Movie m], logged d [GetMovieByCode code, GetMovieByCode code])"
proof -
  from assms have "exact_lookup code d
      = ([Movie m], logged d [GetMovieByCode code, GetMovieByCode code])"
    by (simp add: exact_lookup_pure)
  then show ?thesis using search_exact[of code d U] by simp
qed

lemma search_raw_pure:
  assumes "faults d = []" and "movie_of d code = None" and "raw_match d code = Some r"
  shows "search_and_send_results U code d
           = ([Video r], logged d [GetMovieByCode code, SearchChannelByHashtag (35 # code),
                                   SearchChannelByHashtag (35 # code)])"
proof -
  from assms have "exact_lookup code d
      = ([Video r], logged d [GetMovieByCode code, SearchChannelByHashtag (35 # code),
                              SearchChannelByHashtag (35 # code)])"
    by (simp add: exact_lookup_pure)
  then show ?thesis using search_exact[of code d U] by simp
qed

section \<open>When the prefix fallback is entered\<close>

text \<open>
  C4, as amended. A search makes calls after its exact lookups, those of the prefix
  fallback, exactly when the exact lookups in the catalog and in the raw items gave
  nothing and the code is purely numeric, 1 to 3 digits long and does not start with
  \<open>0\<close>. A search for \<open>007\<close> never makes any. A search for \<open>7\<close> whose exact lookups
  gave nothing, on a store that does not fail, looks up \<open>M7, A7, C7, D7, H7, S7, F7, T7\<close>
  in that order in the catalog, up to the first that is there, which it returns; only
  when none is there does it search the raw items for them, in the same order, up to
  the first that is there, which it returns.
\<close>

theorem prefix_fallback_entry:
  "(fallback_calls U code d \<noteq> [] \<longleftrightarrow> fst (exact_lookup code d) = [] \<and> short_number U code)
   \<and> fallback_calls U (lit ''007'') d = []
   \<and> (faults d = [] \<and> fst (exact_lookup (lit ''7'') d) = [] \<longrightarrow>
        fallback_calls U (lit ''7'') d
          = map GetMovieByCode (until_first (\<lambda>c. movie_of d c \<noteq> None) seven_guesses)
            @ (if first_movie d seven_guesses = []
               then map (\<lambda>c. SearchChannelByHashtag (35 # c))
                      (until_first (\<lambda>c. raw_match d c \<noteq> None) seven_guesses)
               else [])
        \<and> fst (search_and_send_results U (lit ''7'') d)
          = (if first_movie d seven_guesses \<noteq> [] then map Movie (first_movie d seven_guesses)
             else map Video (first_video d seven_guesses)))"
proof (intro conjI impI)
  show "fallback_calls U code d \<noteq> [] \<longleftrightarrow> fst (exact_lookup code d) = [] \<and> short_number U code"
    by (rule fallback_entered_iff)
  show "fallback_calls U (lit ''007'') d = []"
    using fallback_entered_iff[of U "lit ''007''" d] not_short_007[of U] by blast
next
  assume a: "faults d = [] \<and> fst (exact_lookup (lit ''7'') d) = []"
  then obtain cs where l: "snd (exact_lookup (lit ''7'') d) = logged d cs"
    using exact_lookup_faults by blast
  have s: "search_and_send_results U (lit ''7'') d = prefix_fallback (lit ''7'') (logged d cs)"
    using a l search_fallback[of "lit ''7''" d U] short_7 by simp
  have f: "faults (logged d cs) = []" using a by simp
  show "fallback_calls U (lit ''7'') d
          = map GetMovieByCode (until_first (\<lambda>c. movie_of d c \<noteq> None) seven_guesses)
            @ (if first_movie d seven_guesses = []
               then map (\<lambda>c. SearchChannelByHashtag (35 # c))
                      (until_first (\<lambda>c. raw_match d c \<noteq> None) seven_guesses)
               else [])"
    by (simp add: fallback_calls_def s l prefix_fallback_pure[OF f] candidates_7
        first_movie_def first_video_def)
  show "fst (search_and_send_results U (lit ''7'') d)
          = (if first_movie d seven_guesses \<noteq> [] then map Movie (first_movie d seven_guesses)
             else map Video (first_video d seven_guesses))"
    by (simp add: s prefix_fallback_pure[OF f] candidates_7 first_movie_def first_video_def)
qed

lemmas search_db_defs = db_a7_m7_def db_a123_def db_a12_def movie_a7_def video_m7_def
  video_a123_def video_a12_def pending_a12_def empty_db_def

lemma movie_of_a7_m7:
  "movie_of db_a7_m7 (lit ''7'') = None" "movie_of db_a7_m7 (lit ''M7'') = None"
  "movie_of db_a7_m7 (lit ''A7'') = Some movie_a7"
  by (simp_all add: movie_of_def search_db_defs lit_def)

lemma raw_match_a7_m7:
  "raw_match db_a7_m7 (lit ''7'') = None" "raw_match db_a7_m7 (lit ''M7'') = Some video_m7"
  by (simp_all add: raw_match_def newest_first_def order_by_desc_def search_db_defs lit_def)

lemma faults_examples: "faults db_a7_m7 = []" "faults db_a123 = []" "faults db_a12 = []"
  by (simp_all add: search_db_defs)

lemma exact_7_a7_m7:
  "exact_lookup (lit ''7'') db_a7_m7
     = ([], logged db_a7_m7 [GetMovieByCode (lit ''7''), SearchChannelByHashtag (lit ''#7'')])"
  by (simp add: exact_lookup_pure faults_examples movie_of_a7_m7 raw_match_a7_m7) (simp add: lit_def)

text \<open>
  The search for \<open>7\<close> in a store that has the movie \<open>A7\<close> and a video with \<open>#M7\<close>.
\<close>

theorem prefix_fallback_entry_witness:
  "faults db_a7_m7 = [] \<and> fst (exact_lookup (lit ''7'') db_a7_m7) = []
   \<and> short_number ascii_only (lit ''7'')
   \<and> fallback_calls ascii_only (lit ''7'') db_a7_m7
       = [GetMovieByCode (lit ''M7''), GetMovieByCode (lit ''A7'')]
   \<and> fst (search_and_send_results ascii_only (lit ''7'') db_a7_m7) = [Movie movie_a7]"
proof -
  have e: "fst (exact_lookup (lit ''7'') db_a7_m7) = []" by (simp add: exact_7_a7_m7)
  have u: "until_first (\<lambda>c. movie_of db_a7_m7 c \<noteq> None) seven_guesses = [lit ''M7'', lit ''A7'']"
    by (simp add: seven_guesses_def movie_of_a7_m7)
  have m: "first_movie db_a7_m7 seven_guesses = [movie_a7]"
    by (simp add: first_movie_def seven_guesses_def List.map_filter_simps movie_of_a7_m7)
  from prefix_fallback_entry[of ascii_only "lit ''7''" db_a7_m7] e faults_examples(1) u m short_7
  show ?thesis by simp
qed


text \<open>
  C4, as stated, fails: \<open>M7\<close>, the first guess for \<open>7\<close>, is a hit (the search for
  \<open>M7\<close> returns the video that carries it), yet the search for \<open>7\<close> returns the
  movie \<open>A7\<close> and never searches the raw items for \<open>#M7\<close>.
\<close>

theorem search_for_7_passes_over_hit_m7:
  "fst (search_and_send_results ascii_only (lit ''M7'') db_a7_m7) = [Video video_m7]
   \<and> fst (search_and_send_results ascii_only (lit ''7'') db_a7_m7) = [Movie movie_a7]
   \<and> SearchChannelByHashtag (lit ''#M7'')
       \<notin> set (calls (snd (search_and_send_results ascii_only (lit ''7'') db_a7_m7)))"
proof -
  have m: "fst (search_and_send_results ascii_only (lit ''M7'') db_a7_m7) = [Video video_m7]"
    by (simp add: search_raw_pure[OF faults_examples(1) movie_of_a7_m7(2) raw_match_a7_m7(2)])
  have e: "fst (exact_lookup (lit ''7'') db_a7_m7) = []" by (simp add: exact_7_a7_m7)
  let ?L = "logged db_a7_m7 [GetMovieByCode (lit ''7''), SearchChannelByHashtag (lit ''#7'')]"
  have s: "search_and_send_results ascii_only (lit ''7'') db_a7_m7 = prefix_fallback (lit ''7'') ?L"
    using search_fallback[OF e short_7, of ascii_only] by (simp add: exact_7_a7_m7)
  have f: "faults ?L = []" by (simp add: faults_examples)
  have u: "until_first (\<lambda>c. movie_of ?L c \<noteq> None) (candidates (lit ''7''))
             = [lit ''M7'', lit ''A7'']"
    by (simp add: candidates_7 seven_guesses_def movie_of_a7_m7)
  have fm: "first_movie ?L (candidates (lit ''7'')) = [movie_a7]"
    by (simp add: candidates_7 first_movie_def seven_guesses_def List.map_filter_simps
        movie_of_a7_m7)
  have c: "calls db_a7_m7 = []" by (simp add: search_db_defs)
  have r: "fst (search_and_send_results ascii_only (lit ''7'') db_a7_m7) = [Movie movie_a7]
     \<and> calls (snd (search_and_send_results ascii_only (lit ''7'') db_a7_m7))
         = [GetMovieByCode (lit ''7''), SearchChannelByHashtag (lit ''#7''),
            GetMovieByCode (lit ''M7''), GetMovieByCode (lit ''A7'')]"
    unfolding s prefix_fallback_pure[OF f] u fm by (simp add: c)
  from m r show ?thesis by (simp add: lit_def)
qed

section \<open>The order of the lookups in the fallback\<close>

text \<open>
  C5, as amended. On a store that does not fail, the prefix fallback first looks up the
  catalog for prefix+code, for the prefixes in the order M, A, C, D, H, S, F, T, and stops
  at the first prefix that has a catalog entry, which it returns. Only when no prefix
  has a catalog entry does it search the raw items for prefix+code, for the prefixes in
  the same order, and stops at the first prefix that has a raw item, which it returns.
\<close>

theorem prefix_fallback_catalog_before_raw:
  assumes "faults d = []"
  shows "fst (prefix_fallback code d)
           = (if first_movie d (candidates code) \<noteq> []
              then map Movie (first_movie d (candidates code))
              else map Video (first_video d (candidates code)))
       \<and> drop (length (calls d)) (calls (snd (prefix_fallback code d)))
           = map GetMovieByCode (until_first (\<lambda>c. movie_of d c \<noteq> None) (candidates code))
             @ (if first_movie d (candidates code) = []
                then map (\<lambda>c. SearchChannelByHashtag (35 # c))
                       (until_first (\<lambda>c. raw_match d c \<noteq> None) (candidates code))
                else [])"
  by (simp add: prefix_fallback_pure[OF assms])

text \<open>The fallback for \<open>7\<close> in the store with the movie \<open>A7\<close>.\<close>

theorem prefix_fallback_catalog_before_raw_witness:
  "fst (prefix_fallback (lit ''7'') db_a7_m7) = [Movie movie_a7]
   \<and> drop (length (calls db_a7_m7)) (calls (snd (prefix_fallback (lit ''7'') db_a7_m7)))
       = [GetMovieByCode (lit ''M7''), GetMovieByCode (lit ''A7'')]"
proof -
  have u: "until_first (\<lambda>c. movie_of db_a7_m7 c \<noteq> None) (candidates (lit ''7''))
             = [lit ''M7'', lit ''A7'']"
    by (simp add: candidates_7 seven_guesses_def movie_of_a7_m7)
  have m: "first_movie db_a7_m7 (candidates (lit ''7'')) = [movie_a7]"
    by (simp add: candidates_7 first_movie_def seven_guesses_def List.map_filter_simps
        movie_of_a7_m7)
  from prefix_fallback_catalog_before_raw[OF faults_examples(1), of "lit ''7''"] u m
  show ?thesis by simp
qed

text \<open>
  C5, as stated, fails: the prefix M has a result for \<open>7\<close> (the raw item with
  \<open>#M7\<close>; it has no catalog entry), yet the search returns the catalog entry of the
  later prefix A, and the raw items were never searched for \<open>#M7\<close>.
\<close>

theorem fallback_skips_raw_item_of_earlier_prefix:
  "movie_of db_a7_m7 (lit ''M7'') = None \<and> raw_match db_a7_m7 (lit ''M7'') = Some video_m7
   \<and> fst (search_and_send_results ascii_only (lit ''7'') db_a7_m7) = [Movie movie_a7]
   \<and> calls (snd (search_and_send_results ascii_only (lit ''7'') db_a7_m7))
       = [GetMovieByCode (lit ''7''), SearchChannelByHashtag (lit ''#7''),
          GetMovieByCode (lit ''M7''), GetMovieByCode (lit ''A7'')]"
proof -
  have e: "fst (exact_lookup (lit ''7'') db_a7_m7) = []" by (simp add: exact_7_a7_m7)
  have s: "search_and_send_results ascii_only (lit ''7'') db_a7_m7
      = prefix_fallback (lit ''7'')
          (logged db_a7_m7 [GetMovieByCode (lit ''7''), SearchChannelByHashtag (lit ''#7'')])"
    using search_fallback[OF e short_7, of ascii_only] by (simp add: exact_7_a7_m7)
  have f: "faults (logged db_a7_m7 [GetMovieByCode (lit ''7''), SearchChannelByHashtag (lit ''#7'')]) = []"
    by (simp add: faults_examples)
  let ?L = "logged db_a7_m7 [GetMovieByCode (lit ''7''), SearchChannelByHashtag (lit ''#7'')]"
  have u: "until_first (\<lambda>c. movie_of ?L c \<noteq> None) (candidates (lit ''7''))
             = [lit ''M7'', lit ''A7'']"
    by (simp add: candidates_7 seven_guesses_def movie_of_a7_m7)
  have m: "first_movie ?L (candidates (lit ''7'')) = [movie_a7]"
    by (simp add: candidates_7 first_movie_def seven_guesses_def List.map_filter_simps
        movie_of_a7_m7)
  have c: "calls db_a7_m7 = []" by (simp add: search_db_defs)
  show ?thesis
    unfolding s prefix_fallback_pure[OF f] u m
    by (simp add: c movie_of_a7_m7 raw_match_a7_m7)
qed

section \<open>The scan of the raw items, whatever fails\<close>

lemma channel_rows_upd [simp]:
  "channel_rows (d\<lparr>calls := cs\<rparr>) = channel_rows d"
  "channel_rows (d\<lparr>faults := fs\<rparr>) = channel_rows d"
  by (simp_all add: channel_rows_def fun_eq_iff)

lemma search_channel_eq:
  "search_channel_by_hashtag t d =
     (if fault_at 0 (faults d) then [] else channel_rows d t,
      d\<lparr>calls := calls d @ [SearchChannelByHashtag t], faults := tl (faults d)\<rparr>)"
  by (simp add: search_channel_by_hashtag_def begin_call_eq channel_rows_def)

text \<open>A video passes the validation when the second read works and holds its identity.\<close>

lemma validate_channel_code_eq:
  "validate_channel_code r code d =
     (\<not> fault_at 0 (faults d) \<and> list_ex (\<lambda>cur. same_identity cur r) (channel_rows d (35 # code)),
      d\<lparr>calls := calls d @ [SearchChannelByHashtag (35 # code)], faults := tl (faults d)\<rparr>)"
proof -
  have "list_ex (\<lambda>cur. v_chat_id cur = v_chat_id r \<and> v_message_id cur = v_message_id r) xs
        = list_ex (\<lambda>cur. same_identity cur r) xs" for xs
    by (auto simp: list_ex_iff same_identity_def)
  then show ?thesis
    by (auto simp: validate_channel_code_def search_channel_eq)
qed

lemma leading_failures_simps [simp]:
  "leading_failures [] = 0"
  "leading_failures (f # fs) = (if f then Suc (leading_failures fs) else 0)"
  by (simp_all add: leading_failures_def)

lemma fault_at_0: "fault_at 0 fs = (case fs of [] \<Rightarrow> False | f # _ \<Rightarrow> f)"
  by (cases fs) (simp_all add: fault_at_def)

text \<open>
  The scan of rows of the store, whatever fails: every candidate whose second read fails
  is skipped, and the first whose second read works is returned.
\<close>

lemma scan_channel_results_faults:
  assumes "set rows \<subseteq> set (channel_rows d (35 # code))"
  shows "scan_channel_results rows code d =
     (map Video (take 1 (drop (leading_failures (faults d))
                   (filter (\<lambda>r. contains (v_codes r) (35 # code)) rows))),
      d\<lparr>calls := calls d @ replicate
                   (min (Suc (leading_failures (faults d)))
                      (length (filter (\<lambda>r. contains (v_codes r) (35 # code)) rows)))
                   (SearchChannelByHashtag (35 # code)),
        faults := drop (min (Suc (leading_failures (faults d)))
                      (length (filter (\<lambda>r. contains (v_codes r) (35 # code)) rows)))
                   (faults d)\<rparr>)"
  using assms
proof (induction rows arbitrary: d)
  case Nil
  then show ?case by simp
next
  case (Cons r rows)
  have ne: "contains (v_codes r) (35 # code) \<Longrightarrow> v_codes r \<noteq> []"
    by (cases "v_codes r") auto
  show ?case
  proof (cases "contains (v_codes r) (35 # code)")
    case False
    with Cons show ?thesis by simp
  next
    case True
    from Cons.prems have ex: "list_ex (\<lambda>cur. same_identity cur r) (channel_rows d (35 # code))"
      by (auto simp: list_ex_iff same_identity_def)
    let ?d1 = "d\<lparr>calls := calls d @ [SearchChannelByHashtag (35 # code)], faults := tl (faults d)\<rparr>"
    show ?thesis
    proof (cases "fault_at 0 (faults d)")
      case f: True
      then obtain fs where fs: "faults d = True # fs"
        by (cases "faults d") (auto simp: fault_at_def)
      from Cons.prems have "set rows \<subseteq> set (channel_rows ?d1 (35 # code))" by simp
      from Cons.IH[OF this] True f fs ne show ?thesis
        by (simp add: validate_channel_code_eq replicate_append_same)
    next
      case f: False
      then have l: "leading_failures (faults d) = 0"
        by (cases "faults d") (auto simp: fault_at_def)
      have t: "tl (faults d) = drop (Suc 0) (faults d)" by (simp add: drop_Suc)
      from True f ex ne show ?thesis
        by (simp add: validate_channel_code_eq l t)
    qed
  qed
qed

section \<open>Catalog first, then the newest raw item\<close>

lemma raw_match_in_rows: "raw_match d c = Some r \<Longrightarrow> r \<in> set (channel_rows d (35 # c))"
  using find_channel_rows'[of c d] by (auto simp: find_Some_iff)

lemma get_movie_by_code_eq:
  "get_movie_by_code c d =
     (if fault_at 0 (faults d) then None else movie_of d c,
      d\<lparr>calls := calls d @ [GetMovieByCode c], faults := tl (faults d)\<rparr>)"
  by (simp add: get_movie_by_code_def begin_call_eq movie_of_def)

text \<open>The candidates of a code are the rows of the channel search that hold its tag.\<close>

lemma filter_channel_rows:
  "filter (\<lambda>r. contains (v_codes r) (35 # c)) (channel_rows d (35 # c)) = raw_candidates d c"
proof -
  have "filter (\<lambda>r. contains (v_codes r) (35 # c))
          (filter (\<lambda>r. like (37 # (35 # c) @ [37]) (v_codes r)) xs)
        = filter (\<lambda>r. contains (v_codes r) (35 # c)) xs" for xs :: "video_row list"
    using contains_like[of _ "35 # c"] by (induction xs) auto
  then show ?thesis
    by (simp add: channel_rows_def raw_candidates_def newest_first_def filter_order_by_desc
        del: append.simps)
qed

lemma tl_tl_drop: "tl (tl fs) = drop 2 fs"
  by (cases fs; cases "tl fs") auto

text \<open>
  The exact lookup when the catalog read and the channel search work and the catalog has
  no entry, whatever the later transactions do.
\<close>

lemma exact_lookup_raw_faults:
  assumes "\<not> nth_fault 0 d" and "\<not> nth_fault 1 d" and "movie_of d code = None"
  shows "fst (exact_lookup code d)
           = map Video (take 1 (drop (leading_failures (drop 2 (faults d))) (raw_candidates d code)))"
    and "drop (length (calls d)) (calls (snd (exact_lookup code d)))
           = [GetMovieByCode code, SearchChannelByHashtag (35 # code)]
             @ replicate (min (Suc (leading_failures (drop 2 (faults d))))
                            (length (raw_candidates d code)))
                 (SearchChannelByHashtag (35 # code))"
proof -
  let ?d3 = "d\<lparr>calls := calls d @ [GetMovieByCode code, SearchChannelByHashtag (35 # code)],
               faults := drop 2 (faults d)\<rparr>"
  from assms have f: "\<not> fault_at 0 (faults d)" "\<not> fault_at (Suc 0) (faults d)"
    by (simp_all add: nth_fault_def)
  have e: "exact_lookup code d = scan_channel_results (channel_rows d (35 # code)) code ?d3"
    using f assms(3)
    by (simp add: exact_lookup_def get_movie_by_code_eq search_channel_eq fault_at_tl tl_tl_drop)
  have sub: "set (channel_rows d (35 # code)) \<subseteq> set (channel_rows ?d3 (35 # code))"
    by simp
  note sc = scan_channel_results_faults[OF sub]
  show "fst (exact_lookup code d)
           = map Video (take 1 (drop (leading_failures (drop 2 (faults d))) (raw_candidates d code)))"
    by (simp add: e sc filter_channel_rows)
  show "drop (length (calls d)) (calls (snd (exact_lookup code d)))
           = [GetMovieByCode code, SearchChannelByHashtag (35 # code)]
             @ replicate (min (Suc (leading_failures (drop 2 (faults d))))
                            (length (raw_candidates d code)))
                 (SearchChannelByHashtag (35 # code))"
    by (simp add: e sc filter_channel_rows)
qed

text \<open>A search returns at most one result, whatever fails.\<close>

lemma scan_channel_results_length: "length (fst (scan_channel_results rows code d)) \<le> 1"
  by (induction rows arbitrary: d) (auto simp: Let_def split: prod.splits)

lemma exact_lookup_length: "length (fst (exact_lookup code d)) \<le> 1"
  using scan_channel_results_length
  by (auto simp: exact_lookup_def Let_def split: prod.splits option.splits)

lemma prefix_movies_length: "length (fst (prefix_movies ps code d)) \<le> 1"
  by (induction ps arbitrary: d) (auto simp: Let_def split: prod.splits option.splits)

lemma first_with_code_length: "length (first_with_code rows t) \<le> 1"
  by (induction rows) auto

lemma prefix_videos_length: "length (fst (prefix_videos ps code d)) \<le> 1"
  using first_with_code_length
  by (induction ps arbitrary: d) (auto simp: Let_def split: prod.splits)

lemma prefix_fallback_length: "length (fst (prefix_fallback code d)) \<le> 1"
proof (cases "prefix_movies prefixes code d")
  case (Pair res d1)
  with prefix_movies_length[of prefixes code d] prefix_videos_length[of prefixes code d1]
  show ?thesis by (simp add: prefix_fallback_def)
qed

lemma search_length: "length (fst (search_and_send_results U code d)) \<le> 1"
proof (cases "exact_lookup code d")
  case (Pair res d1)
  with exact_lookup_length[of code d] prefix_fallback_length[of code d1]
  show ?thesis by (simp add: search_and_send_results_def)
qed

text \<open>
  C6, as amended. On a store that does not fail, a search returns the catalog entry of
  the code when there is one, and does not search the raw items; when there is none, it
  returns the raw item of the code, the first item, newest first, whose stored text of
  codes holds the code with its marker as a substring, after reading it a second time.
  Whatever fails after the catalog read and the channel search: the scan goes through
  those items newest first and reads each one it examines a second time; an item whose
  second read fails is skipped, and the first item whose second read works is returned,
  which ends the scan. An item passes the validation exactly when the second read holds
  a row with its chat id and message id. A search returns at most one result.
\<close>

theorem catalog_first_then_newest_raw:
  "(faults d = [] \<longrightarrow>
      (\<forall>m. movie_of d code = Some m \<longrightarrow>
         fst (search_and_send_results U code d) = [Movie m]
         \<and> SearchChannelByHashtag (35 # code)
             \<notin> set (drop (length (calls d)) (calls (snd (search_and_send_results U code d)))))
      \<and> (\<forall>r. movie_of d code = None \<and> raw_match d code = Some r \<longrightarrow>
         fst (search_and_send_results U code d) = [Video r]
         \<and> fst (validate_channel_code r code d)
         \<and> drop (length (calls d)) (calls (snd (search_and_send_results U code d)))
             = [GetMovieByCode code, SearchChannelByHashtag (35 # code),
                SearchChannelByHashtag (35 # code)]))
   \<and> (\<not> nth_fault 0 d \<and> \<not> nth_fault 1 d \<and> movie_of d code = None \<longrightarrow>
        fst (exact_lookup code d)
          = map Video (take 1 (drop (leading_failures (drop 2 (faults d)))
                                 (raw_candidates d code)))
        \<and> drop (length (calls d)) (calls (snd (exact_lookup code d)))
          = [GetMovieByCode code, SearchChannelByHashtag (35 # code)]
            @ replicate (min (Suc (leading_failures (drop 2 (faults d))))
                           (length (raw_candidates d code)))
                (SearchChannelByHashtag (35 # code)))
   \<and> (fst (validate_channel_code r code d)
        \<longleftrightarrow> list_ex (\<lambda>cur. same_identity cur r)
              (fst (search_channel_by_hashtag (35 # code) d)))
   \<and> calls (snd (validate_channel_code r code d))
        = calls d @ [SearchChannelByHashtag (35 # code)]
   \<and> (fst (exact_lookup code d) \<noteq> [] \<longrightarrow>
        search_and_send_results U code d = exact_lookup code d)
   \<and> length (fst (search_and_send_results U code d)) \<le> 1
   \<and> desc v_date (newest_first d) \<and> set (newest_first d) = set (videos d)"
proof (intro conjI allI impI)
  fix m assume "faults d = []" "movie_of d code = Some m"
  note s = search_catalog_pure[OF this]
  show "fst (search_and_send_results U code d) = [Movie m]" by (simp add: s)
  show "SearchChannelByHashtag (35 # code)
          \<notin> set (drop (length (calls d)) (calls (snd (search_and_send_results U code d))))"
    by (simp add: s)
next
  fix r assume f: "faults d = []" and a: "movie_of d code = None \<and> raw_match d code = Some r"
  then have s: "search_and_send_results U code d
           = ([Video r], logged d [GetMovieByCode code, SearchChannelByHashtag (35 # code),
                                   SearchChannelByHashtag (35 # code)])"
    by (simp add: search_raw_pure)
  show "fst (search_and_send_results U code d) = [Video r]" by (simp add: s)
  from a show "fst (validate_channel_code r code d)"
    by (simp add: validate_channel_code_pure[OF f raw_match_in_rows])
  show "drop (length (calls d)) (calls (snd (search_and_send_results U code d)))
             = [GetMovieByCode code, SearchChannelByHashtag (35 # code),
                SearchChannelByHashtag (35 # code)]"
    by (simp add: s)
next
  assume a: "\<not> nth_fault 0 d \<and> \<not> nth_fault 1 d \<and> movie_of d code = None"
  then show "fst (exact_lookup code d)
          = map Video (take 1 (drop (leading_failures (drop 2 (faults d)))
                                 (raw_candidates d code)))"
    by (simp add: exact_lookup_raw_faults(1))
  from a show "drop (length (calls d)) (calls (snd (exact_lookup code d)))
          = [GetMovieByCode code, SearchChannelByHashtag (35 # code)]
            @ replicate (min (Suc (leading_failures (drop 2 (faults d))))
                           (length (raw_candidates d code)))
                (SearchChannelByHashtag (35 # code))"
    by (simp add: exact_lookup_raw_faults(2))
next
  show "fst (validate_channel_code r code d)
        \<longleftrightarrow> list_ex (\<lambda>cur. same_identity cur r)
              (fst (search_channel_by_hashtag (35 # code) d))"
    by (simp add: validate_channel_code_eq search_channel_eq)
  show "calls (snd (validate_channel_code r code d))
        = calls d @ [SearchChannelByHashtag (35 # code)]"
    by (simp add: validate_channel_code_eq)
  show "length (fst (search_and_send_results U code d)) \<le> 1" by (rule search_length)
  show "desc v_date (newest_first d)" by (simp add: newest_first_def desc_order_by_desc)
  show "set (newest_first d) = set (videos d)" by (simp add: newest_first_def set_order_by_desc)
next
  assume "fst (exact_lookup code d) \<noteq> []"
  then show "search_and_send_results U code d = exact_lookup code d" by (rule search_exact)
qed

lemma exact_a12_a123:
  "movie_of db_a123 (lit ''A12'') = None" "raw_match db_a123 (lit ''A12'') = Some video_a123"
  by (simp_all add: movie_of_def raw_match_def newest_first_def order_by_desc_def
      search_db_defs lit_def)

text \<open>
  C6, as stated, fails: the search for \<open>A12\<close> returns the video whose only code is
  \<open>#A123\<close>; \<open>#A12\<close> is not a member of its codes.
\<close>

theorem raw_match_by_substring_not_membership:
  "fst (search_and_send_results ascii_only (lit ''A12'') db_a123) = [Video video_a123]
   \<and> split_ws ascii_only (v_codes video_a123) = [lit ''#A123'']
   \<and> lit ''#A12'' \<notin> set (split_ws ascii_only (v_codes video_a123))"
proof -
  have "fst (exact_lookup (lit ''A12'') db_a123) = [Video video_a123]"
    by (simp add: exact_lookup_pure faults_examples exact_a12_a123)
  then have "fst (search_and_send_results ascii_only (lit ''A12'') db_a123) = [Video video_a123]"
    using search_exact[of "lit ''A12''" db_a123 ascii_only] by simp
  moreover have "split_ws ascii_only (v_codes video_a123) = [lit ''#A123'']"
    by (simp add: video_a123_def text_simps)
  ultimately show ?thesis by (simp add: lit_def)
qed


lemma two_a12_facts:
  "\<not> nth_fault 0 db_two_a12" "\<not> nth_fault 1 db_two_a12"
  "movie_of db_two_a12 (lit ''A12'') = None"
  "raw_candidates db_two_a12 (lit ''A12'') = [video_a12_new, video_a12_old]"
  "leading_failures (drop 2 (faults db_two_a12)) = 1"
  by (simp_all add: nth_fault_def fault_at_def movie_of_def raw_candidates_def newest_first_def
      order_by_desc_def db_two_a12_def video_a12_old_def video_a12_new_def empty_db_def lit_def)

text \<open>
  In the store with the movie \<open>A7\<close> and the video with \<open>#M7\<close>: the searches for
  \<open>A7\<close> and for \<open>M7\<close>. In the store with two videos with \<open>#A12\<close> whose third
  transaction fails: the second read of the newer video fails, and the search returns
  the older one.
\<close>

theorem catalog_first_then_newest_raw_witness:
  "fst (search_and_send_results ascii_only (lit ''A7'') db_a7_m7) = [Movie movie_a7]
   \<and> fst (search_and_send_results ascii_only (lit ''M7'') db_a7_m7) = [Video video_m7]
   \<and> fst (validate_channel_code video_m7 (lit ''M7'') db_a7_m7)
   \<and> raw_candidates db_two_a12 (lit ''A12'') = [video_a12_new, video_a12_old]
   \<and> fst (search_and_send_results ascii_only (lit ''A12'') db_two_a12) = [Video video_a12_old]
   \<and> calls (snd (exact_lookup (lit ''A12'') db_two_a12))
       = [GetMovieByCode (lit ''A12''), SearchChannelByHashtag (lit ''#A12''),
          SearchChannelByHashtag (lit ''#A12''), SearchChannelByHashtag (lit ''#A12'')]"
proof -
  note a = catalog_first_then_newest_raw[of db_a7_m7 "lit ''A7''" ascii_only video_m7]
  note b = catalog_first_then_newest_raw[of db_a7_m7 "lit ''M7''" ascii_only video_m7]
  note c = catalog_first_then_newest_raw[of db_two_a12 "lit ''A12''" ascii_only video_a12_new]
  from a b movie_of_a7_m7 raw_match_a7_m7 faults_examples(1)
  have 1: "fst (search_and_send_results ascii_only (lit ''A7'') db_a7_m7) = [Movie movie_a7]
     \<and> fst (search_and_send_results ascii_only (lit ''M7'') db_a7_m7) = [Video video_m7]
     \<and> fst (validate_channel_code video_m7 (lit ''M7'') db_a7_m7)"
    by simp
  from c two_a12_facts
  have 2: "fst (exact_lookup (lit ''A12'') db_two_a12) = [Video video_a12_old]
     \<and> drop (length (calls db_two_a12)) (calls (snd (exact_lookup (lit ''A12'') db_two_a12)))
       = [GetMovieByCode (lit ''A12''), SearchChannelByHashtag (35 # lit ''A12''),
          SearchChannelByHashtag (35 # lit ''A12''), SearchChannelByHashtag (35 # lit ''A12'')]"
    by (simp add: numeral_2_eq_2)
  then have "fst (exact_lookup (lit ''A12'') db_two_a12) \<noteq> []" by simp
  with c have 3: "search_and_send_results ascii_only (lit ''A12'') db_two_a12
      = exact_lookup (lit ''A12'') db_two_a12"
    by blast
  have 4: "calls db_two_a12 = []" by (simp add: db_two_a12_def empty_db_def)
  from 1 2 3 4 two_a12_facts(4) show ?thesis by (simp add: lit_def)
qed

end
